theory Spec2Isabelle
  imports Complex_Main "HOL-Library.Sublist" "HOL-Library.AList"
begin

section \<open>Python values, dictionaries and exceptions\<close>

text \<open>
  Decoded event payloads, response bodies and the pickled session container are Python
  objects built from \<open>None\<close>, booleans, integers, strings, lists and dictionaries with
  string keys. A dictionary is an association list in insertion order whose keys are
  distinct; JSON numbers are integers in this model.
\<close>

datatype pyval =
    PNone
  | PBool bool
  | PInt int
  | PStr string
  | PList "pyval list"
  | PDict "(string \<times> pyval) list"

type_synonym pydict = "(string \<times> pyval) list"

datatype pyerror =
    AttributeError
  | KeyError
  | TypeError
  | IndexError
  | ValueError
  | UnboundLocalError
  | RegexError

text \<open>Truth value of an object, as \<open>if x:\<close> tests it.\<close>

fun truthy :: "pyval \<Rightarrow> bool" where
  "truthy PNone = False"
| "truthy (PBool b) = b"
| "truthy (PInt n) = (n \<noteq> 0)"
| "truthy (PStr s) = (s \<noteq> [])"
| "truthy (PList xs) = (xs \<noteq> [])"
| "truthy (PDict d) = (d \<noteq> [])"

text \<open>\<open>d.get(k, dflt)\<close>, \<open>k in d\<close> and \<open>d[k] = v\<close> for a dictionary \<open>d\<close>.\<close>

definition dict_get :: "(string \<times> 'v) list \<Rightarrow> string \<Rightarrow> 'v \<Rightarrow> 'v" where
  "dict_get d k dflt = (case map_of d k of Some v \<Rightarrow> v | None \<Rightarrow> dflt)"

definition has_key :: "(string \<times> 'v) list \<Rightarrow> string \<Rightarrow> bool" where
  "has_key d k = (map_of d k \<noteq> None)"

definition dict_set :: "(string \<times> 'v) list \<Rightarrow> string \<Rightarrow> 'v \<Rightarrow> (string \<times> 'v) list" where
  "dict_set d k v = AList.update k v d"

text \<open>
  \<open>x in d\<close> for an arbitrary object \<open>x\<close> and a dictionary \<open>d\<close> with string keys hashes
  \<open>x\<close> first: a list or a dictionary is unhashable (\<open>TypeError\<close>); \<open>None\<close>, a boolean
  or a number is hashable and equal to no string key.
\<close>

fun hash_key :: "pyval \<Rightarrow> pyerror + string option" where
  "hash_key (PStr s) = Inr (Some s)"
| "hash_key (PList xs) = Inl TypeError"
| "hash_key (PDict d) = Inl TypeError"
| "hash_key PNone = Inr None"
| "hash_key (PBool b) = Inr None"
| "hash_key (PInt n) = Inr None"

text \<open>\<open>xs[i]\<close> for a list \<open>xs\<close>: the index is an integer (a boolean counts as 0 or 1),
  negative indices count from the end.\<close>

definition list_at :: "pyval list \<Rightarrow> int \<Rightarrow> pyerror + pyval" where
  "list_at xs i =
     (if i < - int (length xs) \<or> int (length xs) \<le> i then Inl IndexError
      else if i < 0 then Inr (xs ! nat (int (length xs) + i))
      else Inr (xs ! nat i))"

fun list_index :: "pyval list \<Rightarrow> pyval \<Rightarrow> pyerror + pyval" where
  "list_index xs (PInt i) = list_at xs i"
| "list_index xs (PBool b) = list_at xs (if b then 1 else 0)"
| "list_index xs PNone = Inl TypeError"
| "list_index xs (PStr s) = Inl TypeError"
| "list_index xs (PList ys) = Inl TypeError"
| "list_index xs (PDict d) = Inl TypeError"

text \<open>The first exception of a sequence of computations, or all their results.\<close>

fun collect :: "(pyerror + 'a) list \<Rightarrow> pyerror + 'a list" where
  "collect [] = Inr []"
| "collect (Inl e # rs) = Inl e"
| "collect (Inr x # rs) = (case collect rs of Inl e \<Rightarrow> Inl e | Inr xs \<Rightarrow> Inr (x # xs))"

text \<open>\<open>s.split(c)\<close> for a one-character separator.\<close>

fun split_on :: "char \<Rightarrow> string \<Rightarrow> string list" where
  "split_on c [] = [[]]"
| "split_on c (x # xs) =
     (if x = c then [] # split_on c xs
      else (case split_on c xs of [] \<Rightarrow> [[x]] | w # ws \<Rightarrow> (x # w) # ws))"

text \<open>\<open>p in s\<close> for two strings: \<open>p\<close> occurs in \<open>s\<close>.\<close>

fun occurs_in :: "string \<Rightarrow> string \<Rightarrow> bool" where
  "occurs_in p [] = (p = [])"
| "occurs_in p (x # xs) = (prefix p (x # xs) \<or> occurs_in p xs)"

section \<open>Client state\<close>

text \<open>
  The fields of \<open>ArloBackEnd\<close> the operations below read or write. \<open>session_info\<close> is
  the class-level session container; \<open>requests\<close> is the pending-transaction map
  (\<open>PNone\<close> while unresolved); \<open>callbacks\<close> is the callback registry; \<open>event_client\<close>
  tells whether a transport handle is set; \<open>client_connected\<close> is the attribute the
  supervisor writes on clean-up (\<open>None\<close> before it was ever written).
\<close>

record device =
  device_id :: string
  unique_id :: string

record 'cb backend =
  user_id :: pyval
  web_id :: pyval
  sub_id :: pyval
  token :: pyval
  expires_in :: pyval
  browser_auth_code :: pyval
  user_device_id :: pyval
  session_info :: pyval
  requests :: pydict
  callbacks :: "(string \<times> 'cb list) list"
  event_client :: bool
  event_connected :: bool
  client_connected :: "bool option"
  stop_thread :: bool
  logged_in :: bool
  use_mqtt :: bool

section \<open>Event classifier and router (\<open>_event_dispatcher\<close>)\<close>

type_synonym triple = "pyval \<times> string \<times> pyval"

text \<open>The optional \<open>error\<close> field is logged through \<open>err.get\<close>, which only a
  dictionary has.\<close>

definition log_error_field :: "pydict \<Rightarrow> pyerror option" where
  "log_error_field response =
     (case dict_get response ''error'' PNone of
        PNone \<Rightarrow> None
      | PDict e \<Rightarrow> None
      | _ \<Rightarrow> Some AttributeError)"

text \<open>Packet type 2: one triple per top-level key other than \<open>resource\<close>.\<close>

definition automation_triples :: "string \<Rightarrow> pydict \<Rightarrow> triple list" where
  "automation_triples resource response =
     map (\<lambda>k. (PStr k, resource, dict_get response k PNone))
       (filter (\<lambda>k. k \<noteq> ''resource'') (map fst response))"

text \<open>Mode update: the payload has a \<open>states\<close> field.\<close>

definition states_triples :: "pydict \<Rightarrow> triple list" where
  "states_triples response =
     (case dict_get response ''from'' PNone of
        PNone \<Rightarrow> []
      | dev \<Rightarrow> [(dev, ''states'', dict_get response ''states'' PNone)])"

text \<open>Individual device update: the id is the second segment of the resource path.\<close>

definition device_update_triples :: "string \<Rightarrow> pydict \<Rightarrow> pyerror + triple list" where
  "device_update_triples resource response =
     (case split_on CHR ''/'' resource of
        a # b # rest \<Rightarrow> Inr [(PStr b, resource, PDict response)]
      | _ \<Rightarrow> Inl IndexError)"

text \<open>Base station and child statuses: iterate \<open>response.get('devices', {})\<close> and
  subscript it with each element.\<close>

definition devices_triples :: "string \<Rightarrow> pydict \<Rightarrow> pyerror + triple list" where
  "devices_triples resource response =
     (case dict_get response ''devices'' (PDict []) of
        PDict d \<Rightarrow> Inr (map (\<lambda>k. (PStr k, resource, dict_get d k PNone)) (map fst d))
      | PList xs \<Rightarrow>
          collect (map (\<lambda>x. case list_index xs x of
                               Inl e \<Rightarrow> Inl e
                             | Inr props \<Rightarrow> Inr (x, resource, props)) xs)
      | PStr s \<Rightarrow> (if s = [] then Inr [] else Inl TypeError)
      | _ \<Rightarrow> Inl TypeError)"

text \<open>Base station responses: the resource is itself a known resource type.\<close>

definition properties_triples :: "string \<Rightarrow> pydict \<Rightarrow> pyerror + triple list" where
  "properties_triples resource response =
     (case dict_get response ''properties'' (PList []) of
        PList props \<Rightarrow>
          collect (map (\<lambda>prop. case prop of
                                  PDict p \<Rightarrow>
                                    Inr ((case dict_get p ''serialNumber'' PNone of
                                            PNone \<Rightarrow> dict_get response ''from'' PNone
                                          | dev \<Rightarrow> dev), resource, prop)
                                | _ \<Rightarrow> Inl AttributeError) props)
      | _ \<Rightarrow> Inr [(dict_get response ''from'' PNone, resource, PDict response)])"

text \<open>Baby camera packets.\<close>

definition audio_triples :: "string \<Rightarrow> pydict \<Rightarrow> triple list" where
  "audio_triples resource response =
     (let dev = dict_get response ''from'' PNone;
          properties =
            (if resource = ''audioPlayback/status''
             then PDict [(''status'', dict_get response ''properties'' PNone)]
             else dict_get response ''properties'' PNone)
      in if dev \<noteq> PNone \<and> properties \<noteq> PNone then [(dev, resource, properties)] else [])"

text \<open>Last-ditch effort: \<open>deviceId\<close>, then \<open>uniqueId\<close>, then \<open>locationId\<close>.\<close>

definition fallback_triples :: "string \<Rightarrow> pydict \<Rightarrow> triple list" where
  "fallback_triples resource response =
     (case dict_get response ''deviceId''
             (dict_get response ''uniqueId'' (dict_get response ''locationId'' PNone)) of
        PNone \<Rightarrow> []
      | dev \<Rightarrow> [(dev, resource, PDict response)])"

text \<open>
  The list \<open>responses\<close> that \<open>_event_dispatcher\<close> builds, or the exception raised while
  building it. \<open>resource_types\<close> is \<open>self._resource_types\<close>, set from the constant
  \<open>DEFAULT_RESOURCES\<close>.
\<close>

definition event_classify :: "string list \<Rightarrow> pydict \<Rightarrow> pyerror + triple list" where
  "event_classify resource_types response =
     (case log_error_field response of
        Some e \<Rightarrow> Inl e
      | None \<Rightarrow>
          (case dict_get response ''resource'' (PStr []) of
             PStr resource \<Rightarrow>
               if prefix ''subscriptions/'' resource then Inr []
               else if resource = ''activeAutomations''
                 then Inr (automation_triples resource response)
               else if has_key response ''states''
                 then Inr (states_triples response)
               else if list_ex (\<lambda>x. prefix (x @ ''/'') resource) resource_types
                 then device_update_triples resource response
               else if resource = ''devices''
                 then devices_triples resource response
               else if resource \<in> set resource_types
                 then properties_triples resource response
               else if prefix ''audioPlayback'' resource
                 then Inr (audio_triples resource response)
               else Inr (fallback_triples resource response)
           | _ \<Rightarrow> Inl AttributeError))"

text \<open>The list \<open>self._callbacks[k]\<close> consulted for a key, empty when the key is absent.\<close>

definition registered :: "(string \<times> 'cb list) list \<Rightarrow> string \<Rightarrow> 'cb list" where
  "registered cbs k = dict_get cbs k []"

text \<open>
  The delivery loop: for each triple the callbacks under its device id (when the id is
  truthy and a key of the registry) and then those under \<open>all\<close> are handed to the
  background runner with the triple's resource and event. The result is the list of
  scheduled invocations and the exception that ended the loop, if any.
\<close>

fun deliver ::
  "(string \<times> 'cb list) list \<Rightarrow> triple list \<Rightarrow> ('cb \<times> string \<times> pyval) list \<times> pyerror option"
where
  "deliver cbs [] = ([], None)"
| "deliver cbs ((dev, resource, event) # ts) =
     (case (if truthy dev then hash_key dev else Inr None) of
        Inl e \<Rightarrow> ([], Some e)
      | Inr k \<Rightarrow>
          (let targets = (case k of None \<Rightarrow> [] | Some key \<Rightarrow> registered cbs key)
                           @ registered cbs ''all'';
               rest = deliver cbs ts
           in (map (\<lambda>cb. (cb, resource, event)) targets @ fst rest, snd rest)))"

definition event_dispatcher ::
  "string list \<Rightarrow> 'cb backend \<Rightarrow> pydict \<Rightarrow> ('cb \<times> string \<times> pyval) list \<times> pyerror option"
where
  "event_dispatcher resource_types b response =
     (case event_classify resource_types response of
        Inl e \<Rightarrow> ([], Some e)
      | Inr ts \<Rightarrow> deliver (callbacks b) ts)"

section \<open>Subscriber interface\<close>

definition registry_append :: "string \<Rightarrow> 'cb \<Rightarrow> (string \<times> 'cb list) list \<Rightarrow> (string \<times> 'cb list) list" where
  "registry_append k cb cbs = dict_set cbs k (registered cbs k @ [cb])"

definition add_listener :: "device \<Rightarrow> 'cb \<Rightarrow> 'cb backend \<Rightarrow> 'cb backend" where
  "add_listener dev cb b =
     b\<lparr>callbacks :=
         registry_append (unique_id dev) cb (registry_append (device_id dev) cb (callbacks b))\<rparr>"

definition add_any_listener :: "'cb \<Rightarrow> 'cb backend \<Rightarrow> 'cb backend" where
  "add_any_listener cb b = b\<lparr>callbacks := registry_append ''all'' cb (callbacks b)\<rparr>"

definition del_listener :: "device \<Rightarrow> 'cb \<Rightarrow> 'cb backend \<Rightarrow> 'cb backend" where
  "del_listener dev cb b = b"

text \<open>The fields as the constructor sets them before a session is loaded.\<close>

definition init_backend :: "'cb backend" where
  "init_backend =
     \<lparr>user_id = PNone, web_id = PNone, sub_id = PNone, token = PNone, expires_in = PInt 0,
      browser_auth_code = PNone, user_device_id = PNone, session_info = PDict [],
      requests = [], callbacks = [], event_client = False, event_connected = False,
      client_connected = None, stop_thread = False, logged_in = False, use_mqtt = False\<rparr>"

section \<open>Transaction correlator\<close>

text \<open>
  Functions of the Python runtime that the code calls and that are not part of the
  repository: \<open>py_repr\<close> is \<open>str\<close> on numbers, lists and dictionaries; \<open>re_match p s\<close>
  tells whether \<open>re.match(p, s)\<close> finds a match, and is \<open>None\<close> when the pattern \<open>p\<close>
  does not compile; \<open>int_of_str\<close> is \<open>int\<close> on a string, \<open>None\<close> when it raises.
\<close>

record pyrt =
  py_repr :: "pyval \<Rightarrow> string"
  re_match :: "string \<Rightarrow> string \<Rightarrow> bool option"
  int_of_str :: "string \<Rightarrow> int option"

text \<open>\<open>str(x)\<close>, as \<open>"{}".format(x)\<close> renders an object.\<close>

definition str_of :: "pyrt \<Rightarrow> pyval \<Rightarrow> string" where
  "str_of rt v =
     (case v of
        PStr s \<Rightarrow> s
      | PNone \<Rightarrow> ''None''
      | PBool b \<Rightarrow> (if b then ''True'' else ''False'')
      | _ \<Rightarrow> py_repr rt v)"

text \<open>\<open>re.match(request, subject)\<close>: the pattern is compiled first, then a subject
  that is not a string is refused.\<close>

definition match_one :: "pyrt \<Rightarrow> string \<Rightarrow> pyval \<Rightarrow> pyerror + bool" where
  "match_one rt request subject =
     (case re_match rt request (case subject of PStr s \<Rightarrow> s | _ \<Rightarrow> []) of
        None \<Rightarrow> Inl RegexError
      | Some m \<Rightarrow> (case subject of PStr s \<Rightarrow> Inr m | _ \<Rightarrow> Inl TypeError))"

text \<open>The loop \<open>for request in self._requests\<close>: every key that matches is set to the
  payload; an exception ends the loop and keeps what was set before it.\<close>

fun resolve_by_regex ::
  "pyrt \<Rightarrow> pyval \<Rightarrow> pyval \<Rightarrow> string list \<Rightarrow> pydict \<Rightarrow> pydict \<times> pyerror option"
where
  "resolve_by_regex rt subject payload [] reqs = (reqs, None)"
| "resolve_by_regex rt subject payload (request # ks) reqs =
     (case match_one rt request subject of
        Inl e \<Rightarrow> (reqs, Some e)
      | Inr m \<Rightarrow>
          resolve_by_regex rt subject payload ks
            (if m then dict_set reqs request payload else reqs))"

text \<open>
  The part of \<open>_event_handle_response\<close> under the lock: the pending-transaction map
  after the payload was matched, and the exception raised on the way, if any.
\<close>

definition resolve_transactions :: "pyrt \<Rightarrow> pydict \<Rightarrow> pydict \<Rightarrow> pydict \<times> pyerror option" where
  "resolve_transactions rt response reqs =
     (let tid = dict_get response ''transId'' PNone;
          resource = dict_get response ''resource'' PNone;
          dev = dict_get response ''from'' PNone
      in case (if truthy tid then hash_key tid else Inr None) of
           Inl e \<Rightarrow> (reqs, Some e)
         | Inr tk \<Rightarrow>
             (let reqs1 =
                    (case tk of
                       None \<Rightarrow> reqs
                     | Some t \<Rightarrow> if has_key reqs t then dict_set reqs t (PDict response) else reqs)
              in if \<not> truthy resource then (reqs1, None)
                 else (case hash_key resource of
                         Inl e \<Rightarrow> (reqs1, Some e)
                       | Inr None \<Rightarrow>
                           resolve_by_regex rt
                             (if truthy dev
                              then PStr (str_of rt resource @ '':'' @ str_of rt dev)
                              else resource)
                             (PDict response) (map fst reqs1) reqs1
                       | Inr (Some r) \<Rightarrow>
                           if has_key reqs1 r then (dict_set reqs1 r (PDict response), None)
                           else resolve_by_regex rt
                                  (if truthy dev
                                   then PStr (str_of rt resource @ '':'' @ str_of rt dev)
                                   else resource)
                                  (PDict response) (map fst reqs1) reqs1)))"

text \<open>\<open>_event_handle_response\<close>: dispatch, then match against the pending
  transactions. The result is the client state, the scheduled callback invocations and
  the exception that ended the call, if any.\<close>

definition event_handle_response ::
  "pyrt \<Rightarrow> string list \<Rightarrow> 'cb backend \<Rightarrow> pydict
     \<Rightarrow> 'cb backend \<times> ('cb \<times> string \<times> pyval) list \<times> pyerror option"
where
  "event_handle_response rt resource_types b response =
     (case event_dispatcher resource_types b response of
        (calls, Some e) \<Rightarrow> (b, calls, Some e)
      | (calls, None) \<Rightarrow>
          (case resolve_transactions rt response (requests b) of
             (reqs, err) \<Rightarrow> (b\<lparr>requests := reqs\<rparr>, calls, err)))"

text \<open>A runtime for patterns without metacharacters: such a pattern matches exactly
  when it is a prefix of the subject.\<close>

definition literal_rt :: pyrt where
  "literal_rt = \<lparr>py_repr = (\<lambda>v. []), re_match = (\<lambda>p s. Some (prefix p s)),
                  int_of_str = (\<lambda>s. None)\<rparr>"

text \<open>The non-empty string under a key of a payload, if there is one.\<close>

definition str_field :: "pydict \<Rightarrow> string \<Rightarrow> string option" where
  "str_field d k =
     (case dict_get d k PNone of
        PStr s \<Rightarrow> (if s = [] then None else Some s)
      | _ \<Rightarrow> None)"

text \<open>The field under a key is absent, \<open>None\<close> or a string.\<close>

definition text_or_none :: "pydict \<Rightarrow> string \<Rightarrow> bool" where
  "text_or_none d k = (case dict_get d k PNone of PNone \<Rightarrow> True | PStr s \<Rightarrow> True | _ \<Rightarrow> False)"

text \<open>The string the patterns are matched against: \<open>resource:id\<close> when the payload
  has a truthy \<open>from\<close> field, the bare resource otherwise.\<close>

definition match_subject :: "pyrt \<Rightarrow> pydict \<Rightarrow> string \<Rightarrow> string" where
  "match_subject rt response r =
     (if truthy (dict_get response ''from'' PNone)
      then r @ '':'' @ str_of rt (dict_get response ''from'' PNone)
      else r)"

section \<open>Waiting for a transaction\<close>

text \<open>\<open>_start_transaction\<close> with the identifier chosen by the caller.\<close>

definition start_transaction :: "string \<Rightarrow> 'cb backend \<Rightarrow> 'cb backend" where
  "start_transaction tid b = b\<lparr>requests := dict_set (requests b) tid PNone\<rparr>"

text \<open>\<open>self._requests.pop(tid)\<close> inside \<open>try\<close>: the entry's value and the map without
  it, or \<open>None\<close> and the map as it is when the key is missing (\<open>KeyError\<close>).\<close>

definition pop_request :: "string \<Rightarrow> pydict \<Rightarrow> pyval \<times> pydict" where
  "pop_request tid reqs =
     (case map_of reqs tid of
        None \<Rightarrow> (PNone, reqs)
      | Some v \<Rightarrow> (v, AList.delete tid reqs))"

text \<open>
  The loop of \<open>_wait_for_transaction\<close>. \<open>self._lock.wait\<close> gives the lock up, so other
  threads may change the map at will before the waiter holds the lock again: the
  environment is the list of what the waiter finds after each wait, the reading of the
  monotonic clock and the pending-transaction map. The result is \<open>None\<close> when the
  waiter is still blocked after the last observation.
\<close>

fun wait_loop ::
  "string \<Rightarrow> real \<Rightarrow> real \<Rightarrow> pydict \<Rightarrow> (real \<times> pydict) list \<Rightarrow> (pyval \<times> pydict) option"
where
  "wait_loop tid mend mnow reqs [] =
     (if mnow < mend \<and> map_of reqs tid = Some PNone then None
      else Some (pop_request tid reqs))"
| "wait_loop tid mend mnow reqs ((t, reqs') # env) =
     (if mnow < mend \<and> map_of reqs tid = Some PNone then wait_loop tid mend t reqs' env
      else Some (pop_request tid reqs))"

text \<open>\<open>_wait_for_transaction\<close>: \<open>request_timeout\<close> is the configured default,
  \<open>now\<close> the clock reading on entry.\<close>

definition wait_for_transaction ::
  "real \<Rightarrow> string \<Rightarrow> real option \<Rightarrow> real \<Rightarrow> (real \<times> pydict) list \<Rightarrow> 'cb backend
     \<Rightarrow> (pyval \<times> 'cb backend) option"
where
  "wait_for_transaction request_timeout tid timeout now env b =
     (case wait_loop tid
             (now + (case timeout of None \<Rightarrow> request_timeout | Some t \<Rightarrow> t))
             now (requests b) env of
        None \<Rightarrow> None
      | Some (response, reqs) \<Rightarrow> Some (response, b\<lparr>requests := reqs\<rparr>))"

text \<open>No observation shows the key resolved: it is unresolved or missing in each.\<close>

definition never_resolved :: "string \<Rightarrow> pydict list \<Rightarrow> bool" where
  "never_resolved tid maps =
     list_all (\<lambda>m. map_of m tid = None \<or> map_of m tid = Some PNone) maps"

text \<open>The clock reaches the deadline: on entry, or at one of the observations.\<close>

definition deadline_reached :: "real \<Rightarrow> real \<Rightarrow> (real \<times> pydict) list \<Rightarrow> bool" where
  "deadline_reached mend mnow env = (mend \<le> mnow \<or> list_ex (\<lambda>obs. mend \<le> fst obs) env)"

section \<open>Event transport supervisor\<close>

text \<open>The configuration values the supervisor reads: the configured backend, the
  reconnect interval, and for each device the topics it advertises
  (\<open>allowedMqttTopics\<close>).\<close>

record config =
  event_backend :: string
  reconnect_every :: int
  device_topics :: "string list list"

definition mqtt_topics :: "config \<Rightarrow> (string \<times> nat) list" where
  "mqtt_topics cfg = map (\<lambda>topic. (topic, 0)) (concat (device_topics cfg))"

definition select_backend :: "config \<Rightarrow> 'cb backend \<Rightarrow> 'cb backend" where
  "select_backend cfg b =
     (if event_backend cfg = ''auto''
      then (if length (mqtt_topics cfg) = 0 then b\<lparr>use_mqtt := False\<rparr> else b\<lparr>use_mqtt := True\<rparr>)
      else if event_backend cfg = ''mqtt'' then b\<lparr>use_mqtt := True\<rparr>
      else b\<lparr>use_mqtt := False\<rparr>)"

text \<open>
  The wait of \<open>start_monitoring\<close> for the stream to come up. Each \<open>self._lock.wait(1)\<close>
  gives the lock up; \<open>env count\<close> is what the event thread and the other threads do to
  the state during the wait with that number. The result is the number of waits made
  and the state found at the end.
\<close>

function stream_up_loop ::
  "(nat \<Rightarrow> 'cb backend \<Rightarrow> 'cb backend) \<Rightarrow> nat \<Rightarrow> 'cb backend \<Rightarrow> nat \<times> 'cb backend"
where
  "stream_up_loop env count b =
     (if \<not> event_connected b \<and> count < 30
      then stream_up_loop env (Suc count) (env count b)
      else (count, b))"
  by pat_completeness auto
termination
  by (relation "measure (\<lambda>(env, count, b). 30 - count)") auto

declare stream_up_loop.simps [simp del]

text \<open>The state found after \<open>n\<close> more waits have been made, the next wait having
  the number \<open>count\<close>.\<close>

primrec waits_from ::
  "(nat \<Rightarrow> 'cb backend \<Rightarrow> 'cb backend) \<Rightarrow> nat \<Rightarrow> nat \<Rightarrow> 'cb backend \<Rightarrow> 'cb backend"
where
  "waits_from env count 0 b = b"
| "waits_from env count (Suc n) b = waits_from env (Suc count) n (env count b)"

text \<open>\<open>start_monitoring\<close>: the value returned, the number of waits made, the interval
  of the forced reconnect if one was scheduled, and the state.\<close>

definition start_monitoring ::
  "config \<Rightarrow> (nat \<Rightarrow> 'cb backend \<Rightarrow> 'cb backend) \<Rightarrow> 'cb backend
     \<Rightarrow> bool \<times> nat \<times> int option \<times> 'cb backend"
where
  "start_monitoring cfg env b =
     (case stream_up_loop env 0
             ((select_backend cfg b)\<lparr>event_client := False, event_connected := False\<rparr>) of
        (count, b') \<Rightarrow>
          (True, count,
           (if \<not> use_mqtt b' \<and> reconnect_every cfg \<noteq> 0 then Some (reconnect_every cfg)
            else None),
           b'))"

text \<open>
  \<open>_event_main\<close> as a machine over the points of its outer loop: the test of the stop
  flag, the re-login loop, the blocking transport loop, the clean-up after it, and the
  end of the thread. The environment of a step gives, for the state in which it starts,
  what \<open>self._lock.wait(5)\<close> followed by \<open>self._login()\<close> returns and leaves (the
  login rewrites the session fields and the session container; the other threads run
  during the wait), and what the transport loop (\<open>_mqtt_main\<close> or \<open>_sse_main\<close>, with
  everything that happens while it runs) has done to the state when it exits.
\<close>

datatype phase = LoopHead | Relogin | Transport | Cleanup | Finished

record 'cb world =
  login :: "'cb backend \<Rightarrow> bool \<times> 'cb backend"
  transport_exit :: "'cb backend \<Rightarrow> 'cb backend"

text \<open>The statements after the transport loop: clear down, signal out, restart login.\<close>

definition event_cleanup :: "'cb backend \<Rightarrow> 'cb backend" where
  "event_cleanup b =
     b\<lparr>client_connected := Some False, requests := [], event_client := False,
       logged_in := False\<rparr>"

fun event_main_step :: "'cb world \<Rightarrow> phase \<times> 'cb backend \<Rightarrow> phase \<times> 'cb backend" where
  "event_main_step w (LoopHead, b) = (if stop_thread b then (Finished, b) else (Relogin, b))"
| "event_main_step w (Relogin, b) =
     (if logged_in b then (Transport, b)
      else (case login w b of (ok, b') \<Rightarrow> (Relogin, b'\<lparr>logged_in := ok\<rparr>)))"
| "event_main_step w (Transport, b) = (Cleanup, transport_exit w b)"
| "event_main_step w (Cleanup, b) = (LoopHead, event_cleanup b)"
| "event_main_step w (Finished, b) = (Finished, b)"

fun event_main_run :: "'cb world list \<Rightarrow> phase \<times> 'cb backend \<Rightarrow> phase \<times> 'cb backend" where
  "event_main_run [] s = s"
| "event_main_run (w # ws) s = event_main_run ws (event_main_step w s)"

text \<open>A configuration and an environment used in the examples: the stream transport is
  configured, and nothing ever marks the connection ready.\<close>

definition sse_config :: config where
  "sse_config = \<lparr>event_backend = ''sse'', reconnect_every = 0, device_topics = []\<rparr>"

definition never_connects :: "nat \<Rightarrow> 'cb backend \<Rightarrow> 'cb backend" where
  "never_connects n b = b"

definition connects_at :: "nat \<Rightarrow> nat \<Rightarrow> 'cb backend \<Rightarrow> 'cb backend" where
  "connects_at k n b = (if n = k then b\<lparr>event_connected := True\<rparr> else b)"

text \<open>
  A step environment for the stream transport: the login succeeds and changes nothing;
  the transport loop sets the handle, receives \<open>{"status": "connected"}\<close>, which marks
  the connection ready, and then \<open>{"action": "logout"}\<close>, which ends the loop.
\<close>

definition stream_world :: "'cb world" where
  "stream_world =
     \<lparr>login = (\<lambda>b. (True, b)),
      transport_exit = (\<lambda>b. b\<lparr>event_client := True, event_connected := True\<rparr>)\<rparr>"

section \<open>Request executor (\<open>_request_tuple\<close>)\<close>

text \<open>
  What the HTTP session call gives back: it raised, or it returned a response with a
  status code, a \<open>Content-Type\<close> header (\<open>None\<close> when the header is missing), the
  value of \<open>r.json()\<close> (\<open>None\<close> when decoding raises) and the text of the body.
\<close>

datatype wire =
    Raised
  | Reply int "string option" "pyval option" string

text \<open>The second component of the result: a Python value, or the response object
  itself for a streamed \<open>GET\<close>.\<close>

datatype rbody = Body pyval | Stream

type_synonym outcome = "string list \<times> (pyerror + int \<times> rbody)"

text \<open>\<open>x[k]\<close> and \<open>k in x\<close> for a string \<open>k\<close> and an arbitrary object \<open>x\<close>, \<open>x == n\<close>
  for an integer \<open>n\<close>, and \<open>int(x)\<close>.\<close>

fun subscript :: "pyval \<Rightarrow> string \<Rightarrow> pyerror + pyval" where
  "subscript (PDict d) k = (case map_of d k of None \<Rightarrow> Inl KeyError | Some v \<Rightarrow> Inr v)"
| "subscript PNone k = Inl TypeError"
| "subscript (PBool b) k = Inl TypeError"
| "subscript (PInt n) k = Inl TypeError"
| "subscript (PStr s) k = Inl TypeError"
| "subscript (PList xs) k = Inl TypeError"

fun py_contains :: "string \<Rightarrow> pyval \<Rightarrow> pyerror + bool" where
  "py_contains k (PDict d) = Inr (has_key d k)"
| "py_contains k (PStr s) = Inr (occurs_in k s)"
| "py_contains k (PList xs) = Inr (PStr k \<in> set xs)"
| "py_contains k PNone = Inl TypeError"
| "py_contains k (PBool b) = Inl TypeError"
| "py_contains k (PInt n) = Inl TypeError"

fun py_eq_int :: "pyval \<Rightarrow> int \<Rightarrow> bool" where
  "py_eq_int (PInt k) n = (k = n)"
| "py_eq_int (PBool b) n = ((if b then 1 else 0) = n)"
| "py_eq_int PNone n = False"
| "py_eq_int (PStr s) n = False"
| "py_eq_int (PList xs) n = False"
| "py_eq_int (PDict d) n = False"

fun py_int :: "pyrt \<Rightarrow> pyval \<Rightarrow> pyerror + int" where
  "py_int rt (PInt k) = Inr k"
| "py_int rt (PBool b) = Inr (if b then 1 else 0)"
| "py_int rt (PStr s) = (case int_of_str rt s of None \<Rightarrow> Inl ValueError | Some k \<Rightarrow> Inr k)"
| "py_int rt PNone = Inl TypeError"
| "py_int rt (PList xs) = Inl TypeError"
| "py_int rt (PDict d) = Inl TypeError"

text \<open>The generic failure \<open>return 500, None\<close>.\<close>

definition generic_failure :: "int \<times> rbody" where
  "generic_failure = (500, Body PNone)"

text \<open>New auth style: the body has \<open>meta\<close>.\<close>

definition normalize_meta :: "pyrt \<Rightarrow> pyval \<Rightarrow> outcome" where
  "normalize_meta rt body =
     (case subscript body ''meta'' of
        Inl e \<Rightarrow> ([], Inl e)
      | Inr m \<Rightarrow>
          (case subscript m ''code'' of
             Inl e \<Rightarrow> ([], Inl e)
           | Inr code \<Rightarrow>
               if py_eq_int code 200
               then (case subscript body ''data'' of
                       Inl e \<Rightarrow> ([], Inl e)
                     | Inr d \<Rightarrow> ([], Inr (200, Body d)))
               else (case subscript m ''error'' of
                       Inl e \<Rightarrow> ([], Inl e)
                     | Inr err \<Rightarrow>
                         (if py_eq_int err 9204 then [] else [''error in new response''],
                          case py_int rt code of
                            Inl e \<Rightarrow> Inl e
                          | Inr n \<Rightarrow>
                              (case subscript m ''message'' of
                                 Inl e \<Rightarrow> Inl e
                               | Inr msg \<Rightarrow> Inr (n, Body msg))))))"

text \<open>Original response type: the body has \<open>success\<close>.\<close>

definition normalize_success :: "pyval \<Rightarrow> outcome" where
  "normalize_success body =
     (case subscript body ''success'' of
        Inl e \<Rightarrow> ([], Inl e)
      | Inr ok \<Rightarrow>
          if truthy ok
          then (case py_contains ''data'' body of
                  Inl e \<Rightarrow> ([], Inl e)
                | Inr True \<Rightarrow>
                    (case subscript body ''data'' of
                       Inl e \<Rightarrow> ([], Inl e)
                     | Inr d \<Rightarrow> ([], Inr (200, Body d)))
                | Inr False \<Rightarrow> ([], Inr (200, Body (PDict []))))
          else ([''error in response''], Inr generic_failure))"

definition normalize_body :: "pyrt \<Rightarrow> pyval \<Rightarrow> outcome" where
  "normalize_body rt body =
     (case py_contains ''meta'' body of
        Inl e \<Rightarrow> ([], Inl e)
      | Inr True \<Rightarrow> normalize_meta rt body
      | Inr False \<Rightarrow>
          (case py_contains ''success'' body of
             Inl e \<Rightarrow> ([], Inl e)
           | Inr True \<Rightarrow> normalize_success body
           | Inr False \<Rightarrow> ([], Inr generic_failure)))"

text \<open>The body as read in the second \<open>try\<close> block, \<open>None\<close> when reading it raises.\<close>

definition read_body :: "string option \<Rightarrow> pyval option \<Rightarrow> string \<Rightarrow> pyval option" where
  "read_body content_type json text =
     (case content_type of
        None \<Rightarrow> None
      | Some ct \<Rightarrow> if occurs_in ''application/json'' ct then json else Some (PStr text))"

text \<open>
  \<open>_request_tuple\<close> for a verb, the \<open>stream\<close> and \<open>raw\<close> flags and what the session
  call gives back: the warnings logged, and the pair returned or the exception raised.
  A verb other than the four known ones makes no call and leaves \<open>r\<close> unbound.
\<close>

definition request_tuple :: "pyrt \<Rightarrow> string \<Rightarrow> bool \<Rightarrow> bool \<Rightarrow> wire \<Rightarrow> outcome" where
  "request_tuple rt verb stream raw w =
     (if verb \<noteq> ''GET'' \<and> verb \<noteq> ''PUT'' \<and> verb \<noteq> ''POST'' \<and> verb \<noteq> ''OPTIONS''
      then ([''body-error''], Inl UnboundLocalError)
      else (case w of
              Raised \<Rightarrow> ([''request-error''], Inr generic_failure)
            | Reply status content_type json text \<Rightarrow>
                if verb = ''OPTIONS'' then ([], Inr (200, Body PNone))
                else if verb = ''GET'' \<and> stream then ([], Inr (200, Stream))
                else (case read_body content_type json text of
                        None \<Rightarrow> ([''body-error''], Inr generic_failure)
                      | Some body \<Rightarrow>
                          if status \<noteq> 200 then ([], Inr (status, Body PNone))
                          else if raw then ([], Inr (200, Body body))
                          else normalize_body rt body)))"

section \<open>Credential submission (\<open>_auth\<close>, first step)\<close>

datatype auth_result = CAN_RETRY | SUCCESS | FAILED

text \<open>\<open>auth_post\<close>: a \<open>POST\<close>, not streamed, not raw.\<close>

definition auth_post :: "pyrt \<Rightarrow> wire \<Rightarrow> outcome" where
  "auth_post rt w = request_tuple rt ''POST'' False False w"

text \<open>
  The retry loop. \<open>endpoint n\<close> is what the login endpoint gives back to attempt \<open>n\<close>
  (counted from 1). The result is the number of attempts made, the number of
  \<open>time.sleep(3)\<close> calls, and the last code and body; or the exception \<open>auth_post\<close>
  raised.
\<close>

function credential_loop ::
  "pyrt \<Rightarrow> (nat \<Rightarrow> wire) \<Rightarrow> nat \<Rightarrow> nat \<Rightarrow> int \<Rightarrow> rbody \<Rightarrow> pyerror + nat \<times> nat \<times> int \<times> rbody"
where
  "credential_loop rt endpoint attempt sleeps code body =
     (if attempt < 3
      then (case snd (auth_post rt (endpoint (Suc attempt))) of
              Inl e \<Rightarrow> Inl e
            | Inr (c, b) \<Rightarrow>
                if c = 200 \<or> c = 401 then Inr (Suc attempt, sleeps, c, b)
                else credential_loop rt endpoint (Suc attempt) (Suc sleeps) c b)
      else Inr (attempt, sleeps, code, body))"
  by pat_completeness auto
termination
  by (relation "measure (\<lambda>(rt, endpoint, attempt, sleeps, code, body). 3 - attempt)") auto

declare credential_loop.simps [simp del]

text \<open>What follows the loop: return an \<open>AuthResult\<close>, or go on with the body.\<close>

datatype submit_outcome = Return auth_result | Continue rbody

definition after_loop :: "int \<Rightarrow> rbody \<Rightarrow> submit_outcome" where
  "after_loop code body =
     (if body = Body PNone then Return CAN_RETRY
      else if code \<noteq> 200 then Return FAILED
      else Continue body)"

definition auth_submit :: "pyrt \<Rightarrow> (nat \<Rightarrow> wire) \<Rightarrow> pyerror + nat \<times> nat \<times> submit_outcome" where
  "auth_submit rt endpoint =
     (case credential_loop rt endpoint 0 0 0 (Body PNone) of
        Inl e \<Rightarrow> Inl e
      | Inr (attempts, sleeps, code, body) \<Rightarrow>
          Inr (attempts, sleeps, after_loop code body))"

text \<open>Attempt \<open>n\<close> returns a code that is neither 200 nor 401, so the loop sleeps and
  goes on.\<close>

definition goes_on :: "pyrt \<Rightarrow> (nat \<Rightarrow> wire) \<Rightarrow> nat \<Rightarrow> bool" where
  "goes_on rt endpoint n =
     (case snd (auth_post rt (endpoint n)) of
        Inl e \<Rightarrow> False
      | Inr (c, b) \<Rightarrow> c \<noteq> 200 \<and> c \<noteq> 401)"

text \<open>Login endpoints used in the examples: one answers 503 twice and then accepts
  the credentials, one answers every attempt with the HTTP status 401 and a JSON body,
  one answers every attempt with the HTTP status 401 and no \<open>Content-Type\<close> header.\<close>

definition flaky_endpoint :: "nat \<Rightarrow> wire" where
  "flaky_endpoint n =
     (if n < 3 then Reply 503 (Some ''text/html'') None ''busy''
      else Reply 200 (Some ''application/json'')
             (Some (PDict [(''meta'', PDict [(''code'', PInt 200)]),
                           (''data'', PDict [(''token'', PStr ''tok'')])])) [])"

definition unauthorized_endpoint :: "nat \<Rightarrow> wire" where
  "unauthorized_endpoint n =
     Reply 401 (Some ''application/json'')
       (Some (PDict [(''meta'', PDict [(''code'', PInt 401), (''error'', PInt 1101),
                                        (''message'', PStr ''unauthorized'')])])) []"

definition headerless_endpoint :: "nat \<Rightarrow> wire" where
  "headerless_endpoint n = Reply 401 None None ''Unauthorized''"

section \<open>Session store\<close>

text \<open>The configuration values the session store reads. The session file is a value of
  type \<open>pyval option\<close>: \<open>None\<close> when it cannot be opened or unpickled.\<close>

record store_config =
  cfg_save_session :: bool
  cfg_username :: string

text \<open>The container the handler of \<open>_load_session\<close> falls back to.\<close>

definition fresh_container :: pyval where
  "fresh_container = PDict [(''version'', PStr ''2'')]"

text \<open>The assignments \<open>self._x = session_info["x"]\<close> in their order: an exception
  ends them and keeps what was assigned before it.\<close>

fun assign_required ::
  "(string \<times> (pyval \<Rightarrow> 'cb backend \<Rightarrow> 'cb backend)) list \<Rightarrow> pyval \<Rightarrow> 'cb backend
     \<Rightarrow> 'cb backend \<times> pyerror option"
where
  "assign_required [] si b = (b, None)"
| "assign_required ((k, setter) # rest) si b =
     (case subscript si k of
        Inl e \<Rightarrow> (b, Some e)
      | Inr v \<Rightarrow> assign_required rest si (setter v b))"

text \<open>\<open>if "k" in session_info: self._x = session_info["k"]\<close>.\<close>

definition assign_optional ::
  "string \<Rightarrow> (pyval \<Rightarrow> 'cb backend \<Rightarrow> 'cb backend) \<Rightarrow> pyval \<Rightarrow> 'cb backend
     \<Rightarrow> 'cb backend \<times> pyerror option"
where
  "assign_optional k setter si b =
     (case py_contains k si of
        Inl e \<Rightarrow> (b, Some e)
      | Inr False \<Rightarrow> (b, None)
      | Inr True \<Rightarrow>
          (case subscript si k of
             Inl e \<Rightarrow> (b, Some e)
           | Inr v \<Rightarrow> (setter v b, None)))"

definition read_fields :: "pyval \<Rightarrow> 'cb backend \<Rightarrow> 'cb backend \<times> pyerror option" where
  "read_fields si b =
     (case assign_required
             [(''user_id'', \<lambda>v s. s\<lparr>user_id := v\<rparr>),
              (''web_id'', \<lambda>v s. s\<lparr>web_id := v\<rparr>),
              (''sub_id'', \<lambda>v s. s\<lparr>sub_id := v\<rparr>),
              (''token'', \<lambda>v s. s\<lparr>token := v\<rparr>),
              (''expires_in'', \<lambda>v s. s\<lparr>expires_in := v\<rparr>)] si b of
        (b1, Some e) \<Rightarrow> (b1, Some e)
      | (b1, None) \<Rightarrow>
          (case assign_optional ''browser_auth_code'' (\<lambda>v s. s\<lparr>browser_auth_code := v\<rparr>) si b1 of
             (b2, Some e) \<Rightarrow> (b2, Some e)
           | (b2, None) \<Rightarrow>
               assign_optional ''device_id'' (\<lambda>v s. s\<lparr>user_device_id := v\<rparr>) si b2))"

text \<open>\<open>_load_session\<close> for the content of the session file.\<close>

definition load_session :: "store_config \<Rightarrow> pyval option \<Rightarrow> 'cb backend \<Rightarrow> 'cb backend" where
  "load_session cfg file b0 =
     (let b = b0\<lparr>user_id := PNone, web_id := PNone, sub_id := PNone, token := PNone,
                 expires_in := PInt 0, browser_auth_code := PNone, user_device_id := PNone\<rparr>
      in if \<not> cfg_save_session cfg then b
         else (case file of
                 None \<Rightarrow> b\<lparr>session_info := fresh_container\<rparr>
               | Some (PDict d) \<Rightarrow>
                   (let version = dict_get d ''version'' (PInt 1);
                        si = (if version = PStr ''2'' then dict_get d (cfg_username cfg) PNone
                              else PDict d);
                        b1 = (if version = PStr ''2'' then b\<lparr>session_info := PDict d\<rparr>
                              else b\<lparr>session_info :=
                                       PDict (dict_set [(''version'', PStr ''2'')]
                                                (cfg_username cfg) (PDict d))\<rparr>)
                    in if si = PNone then b1
                       else (case read_fields si b1 of
                               (b2, None) \<Rightarrow> b2
                             | (b2, Some e) \<Rightarrow> b2\<lparr>session_info := fresh_container\<rparr>))
               | Some other \<Rightarrow> b\<lparr>session_info := fresh_container\<rparr>))"

text \<open>The dictionary \<open>_save_session\<close> stores under the account.\<close>

definition session_record :: "'cb backend \<Rightarrow> pyval" where
  "session_record b =
     PDict [(''user_id'', user_id b), (''web_id'', web_id b), (''sub_id'', sub_id b),
            (''token'', token b), (''expires_in'', expires_in b),
            (''browser_auth_code'', browser_auth_code b), (''device_id'', user_device_id b)]"

text \<open>
  \<open>_save_session\<close>: the new content of the session file and the new state. \<open>writable\<close>
  tells whether the file can be opened for writing; when it can, it is truncated before
  the container is updated, so an exception after that leaves an unreadable file.
\<close>

definition save_session ::
  "store_config \<Rightarrow> bool \<Rightarrow> pyval option \<Rightarrow> 'cb backend \<Rightarrow> pyval option \<times> 'cb backend"
where
  "save_session cfg writable file b =
     (if \<not> cfg_save_session cfg then (file, b)
      else if \<not> writable then (file, b)
      else (case session_info b of
              PDict d \<Rightarrow>
                (Some (PDict (dict_set d (cfg_username cfg) (session_record b))),
                 b\<lparr>session_info := PDict (dict_set d (cfg_username cfg) (session_record b))\<rparr>)
            | other \<Rightarrow> (None, b)))"

text \<open>The container is a dictionary tagged with version \<open>"2"\<close>.\<close>

definition tagged :: "pyval \<Rightarrow> bool" where
  "tagged c = (case c of PDict d \<Rightarrow> map_of d ''version'' = Some (PStr ''2'') | _ \<Rightarrow> False)"

text \<open>A legacy session: a dictionary that is not tagged with version \<open>"2"\<close> and has the
  five fields that are always read.\<close>

definition legacy_session :: "pydict \<Rightarrow> bool" where
  "legacy_session d =
     (dict_get d ''version'' (PInt 1) \<noteq> PStr ''2''
      \<and> has_key d ''user_id'' \<and> has_key d ''web_id'' \<and> has_key d ''sub_id''
      \<and> has_key d ''token'' \<and> has_key d ''expires_in'')"

text \<open>Example accounts and a populated client.\<close>

definition alice_config :: store_config where
  "alice_config = \<lparr>cfg_save_session = True, cfg_username = ''alice@example.org''\<rparr>"

definition version_config :: store_config where
  "version_config = \<lparr>cfg_save_session = True, cfg_username = ''version''\<rparr>"

definition populate :: "'cb backend \<Rightarrow> 'cb backend" where
  "populate b =
     b\<lparr>user_id := PStr ''U1'', web_id := PStr ''U1_web'', sub_id := PStr ''subscriptions/U1_web'',
       token := PStr ''tok'', expires_in := PInt 1700000000, browser_auth_code := PStr ''bac'',
       user_device_id := PStr ''dev''\<rparr>"

definition legacy_file :: pydict where
  "legacy_file =
     [(''user_id'', PStr ''U0''), (''web_id'', PStr ''U0_web''), (''sub_id'', PStr ''subscriptions/U0_web''),
      (''token'', PStr ''old''), (''expires_in'', PInt 1600000000)]"


section \<open>Properties of the subscriber interface\<close>

lemma registered_registry_append:
  "registered (registry_append k cb cbs) k' =
     (if k' = k then registered cbs k @ [cb] else registered cbs k')"
  by (simp add: registered_def registry_append_def dict_set_def dict_get_def update_conv')

lemma map_of_registry_append:
  "map_of (registry_append k cb cbs) k' =
     (if k' = k then Some (registered cbs k @ [cb]) else map_of cbs k')"
  by (simp add: registry_append_def dict_set_def update_conv')

text \<open>
  Claim C9. \<open>del_listener\<close> is a no-op: for every device and callback it returns the
  client state exactly as it was, registry included, so every payload is dispatched to
  the same callbacks after the call as before it; in particular a callback that was
  registered with \<open>add_listener\<close> is still in the registry after \<open>del_listener\<close> for it.
\<close>

theorem del_listener_noop:
  "del_listener dev cb b = b
   \<and> event_dispatcher rts (del_listener dev cb b) response = event_dispatcher rts b response
   \<and> callbacks (del_listener dev cb (add_listener dev cb b)) = callbacks (add_listener dev cb b)"
  by (simp add: del_listener_def)

text \<open>
  Claim C10, as amended. \<open>add_listener\<close> appends the callback to the list under the
  device's \<open>device_id\<close> key and to the list under its \<open>unique_id\<close> key, creating a list
  that is absent (when both identifiers are the same key the callback is appended twice
  to that one list); no other registry entry and no other field of the client changes;
  a triple routed under either identifier reaches the callback when that identifier is
  not the empty string; and for a triple routed under the empty string the delivery loop
  consults the list under \<open>all\<close> only.
\<close>

theorem add_listener_registers:
  "map_of (callbacks (add_listener dev cb b)) (device_id dev) =
     Some (registered (callbacks b) (device_id dev) @ [cb]
           @ (if unique_id dev = device_id dev then [cb] else []))
   \<and> map_of (callbacks (add_listener dev cb b)) (unique_id dev) =
     Some (registered (callbacks b) (unique_id dev)
           @ (if unique_id dev = device_id dev then [cb] else []) @ [cb])
   \<and> (\<forall>k. k \<noteq> device_id dev \<and> k \<noteq> unique_id dev \<longrightarrow>
          map_of (callbacks (add_listener dev cb b)) k = map_of (callbacks b) k)
   \<and> add_listener dev cb b = b\<lparr>callbacks := callbacks (add_listener dev cb b)\<rparr>
   \<and> (\<forall>k r e. (k = device_id dev \<or> k = unique_id dev) \<and> k \<noteq> [] \<longrightarrow>
          (cb, r, e) \<in> set (fst (deliver (callbacks (add_listener dev cb b)) [(PStr k, r, e)])))
   \<and> (\<forall>r e. fst (deliver (callbacks (add_listener dev cb b)) [(PStr [], r, e)]) =
          map (\<lambda>c. (c, r, e)) (registered (callbacks (add_listener dev cb b)) ''all''))"
  by (auto simp: add_listener_def map_of_registry_append registered_registry_append)

theorem add_listener_registers_witness:
  "map_of (callbacks (add_listener \<lparr>device_id = ''cam1'', unique_id = ''u-cam1''\<rparr> (7::nat)
             init_backend)) ''cam1'' = Some [7]
   \<and> map_of (callbacks (add_listener \<lparr>device_id = ''cam1'', unique_id = ''u-cam1''\<rparr> (7::nat)
             init_backend)) ''u-cam1'' = Some [7]
   \<and> (7, ''cameras/cam1'', PNone) \<in> set (fst (deliver
         (callbacks (add_listener \<lparr>device_id = ''cam1'', unique_id = ''u-cam1''\<rparr> (7::nat)
             init_backend)) [(PStr ''cam1'', ''cameras/cam1'', PNone)]))"
  using add_listener_registers
    [of "\<lparr>device_id = ''cam1'', unique_id = ''u-cam1''\<rparr>" "7::nat" init_backend]
  by (simp add: init_backend_def registered_def dict_get_def)

text \<open>
  The claim as stated fails for a device whose \<open>device_id\<close> is the empty string: the
  callback is registered under that key, and a triple routed under it reaches no
  callback, the delivery loop testing \<open>if device_id and device_id in self._callbacks\<close>.
\<close>

theorem add_listener_counterexample:
  "map_of (callbacks (add_listener \<lparr>device_id = [], unique_id = ''u-cam1''\<rparr> (7::nat)
             init_backend)) [] = Some [7]
   \<and> fst (deliver (callbacks (add_listener \<lparr>device_id = [], unique_id = ''u-cam1''\<rparr> (7::nat)
             init_backend)) [(PStr [], ''cameras/cam1'', PNone)]) = []
   \<and> (7, ''cameras/cam1'', PNone) \<notin> set (fst (deliver
         (callbacks (add_listener \<lparr>device_id = [], unique_id = ''u-cam1''\<rparr> (7::nat)
             init_backend)) [(PStr [], ''cameras/cam1'', PNone)]))"
  by (simp add: add_listener_def registry_append_def registered_def dict_get_def dict_set_def
      init_backend_def)

section \<open>Properties of the event classifier\<close>

lemma split_on_no_sep: "c \<notin> set s \<Longrightarrow> split_on c s = [s]"
  by (induction s) auto

lemma split_on_first: "c \<notin> set a \<Longrightarrow> split_on c (a @ c # rest) = a # split_on c rest"
  by (induction a) auto

lemma split_on_second:
  assumes "c \<notin> set a" "c \<notin> set b" "rest = [] \<or> hd rest = c"
  shows "\<exists>ws. split_on c (a @ c # b @ rest) = a # b # ws"
proof (cases rest)
  case Nil
  with assms show ?thesis by (simp add: split_on_first split_on_no_sep)
next
  case (Cons x xs)
  with assms have "rest = c # xs" by auto
  with assms show ?thesis by (simp add: split_on_first)
qed

lemma prefix_sep_same:
  "c \<notin> set a \<Longrightarrow> c \<notin> set b \<Longrightarrow> prefix (a @ c # x) (b @ c # y) \<Longrightarrow> a = b"
proof (induction a arbitrary: b)
  case Nil
  then show ?case by (cases b) auto
next
  case (Cons h t)
  then show ?case by (cases b) auto
qed



text \<open>
  Claim C6, as amended. For a payload whose resource is \<open><type>/<id>\<close>, possibly
  followed by further \<open>/\<close>-separated segments, where \<open><type>\<close> is a known resource
  type other than \<open>subscriptions\<close>, neither \<open><type>\<close> nor \<open><id>\<close> contains \<open>/\<close>,
  the payload has no \<open>states\<close> field and its \<open>error\<close> field is absent, \<open>None\<close> or a
  dictionary, the classifier produces exactly one triple: device id \<open><id>\<close>, the
  resource, and the whole payload.
\<close>

theorem known_type_routing:
  assumes known: "ty \<in> set resource_types"
    and ty: "CHR ''/'' \<notin> set ty"
    and ident: "CHR ''/'' \<notin> set ident"
    and rest: "rest = [] \<or> hd rest = CHR ''/''"
    and res: "map_of response ''resource'' = Some (PStr (ty @ ''/'' @ ident @ rest))"
    and nosub: "ty \<noteq> ''subscriptions''"
    and nostates: "\<not> has_key response ''states''"
    and err: "log_error_field response = None"
  shows "event_classify resource_types response =
           Inr [(PStr ident, ty @ ''/'' @ ident @ rest, PDict response)]"
proof -
  define r where "r = ty @ ''/'' @ ident @ rest"
  have get: "dict_get response ''resource'' (PStr []) = PStr r"
    using res by (simp add: dict_get_def r_def)
  have slash: "CHR ''/'' \<in> set r" by (simp add: r_def)
  have a: "(r = ''activeAutomations'') = False"
  proof -
    have "CHR ''/'' \<notin> set ''activeAutomations''" by simp
    with slash show ?thesis by blast
  qed
  have s: "prefix ''subscriptions/'' r = False"
  proof -
    have "''subscriptions'' = ty"
      if "prefix (''subscriptions'' @ CHR ''/'' # []) (ty @ CHR ''/'' # (ident @ rest))"
      using that ty by (intro prefix_sep_same[where c = "CHR ''/''"]) simp_all
    with nosub show ?thesis by (auto simp: r_def)
  qed
  have p: "list_ex (\<lambda>x. prefix (x @ ''/'') r) resource_types = True"
  proof -
    have "prefix (ty @ ''/'') r" by (simp add: r_def)
    with known show ?thesis unfolding list_ex_iff by blast
  qed
  obtain ws where sp: "split_on CHR ''/'' r = ty # ident # ws"
    using split_on_second[OF ty ident rest] by (auto simp: r_def)
  have d: "device_update_triples r response = Inr [(PStr ident, r, PDict response)]"
    by (simp only: device_update_triples_def sp list.case)
  have n: "has_key response ''states'' = False" using nostates by simp
  have "event_classify resource_types response = Inr [(PStr ident, r, PDict response)]"
    unfolding event_classify_def err get
    by (simp only: option.case pyval.case a s p n d if_False if_True)
  then show ?thesis by (simp only: r_def)
qed


lemmas classify_defs = event_classify_def log_error_field_def dict_get_def has_key_def
  states_triples_def device_update_triples_def

theorem known_type_routing_witness:
  "event_classify [''cameras''] [(''resource'', PStr ''cameras/ABC''), (''from'', PStr ''base1'')]
     = Inr [(PStr ''ABC'', ''cameras/ABC'',
             PDict [(''resource'', PStr ''cameras/ABC''), (''from'', PStr ''base1'')])]"
  using known_type_routing [of "''cameras''" "[''cameras'']" "''ABC''" "[]"
      "[(''resource'', PStr ''cameras/ABC''), (''from'', PStr ''base1'')]"]
  by (simp add: has_key_def log_error_field_def dict_get_def)

text \<open>
  The claim as stated fails for a payload that also carries a \<open>states\<close> field: the
  mode-update case is tested before the known-type prefix, so the triple is keyed by the
  \<open>from\<close> field, or there is no triple at all.
\<close>

theorem known_type_routing_counterexample:
  "event_classify [''cameras'']
     [(''resource'', PStr ''cameras/ABC''), (''from'', PStr ''base1''), (''states'', PDict [])]
     = Inr [(PStr ''base1'', ''states'', PDict [])]
   \<and> event_classify [''cameras'']
     [(''resource'', PStr ''cameras/ABC''), (''states'', PDict [])] = Inr []"
  by (simp add: classify_defs)

section \<open>Properties of the transaction correlator\<close>

lemma dict_set_keys: "has_key d k \<Longrightarrow> map fst (dict_set d k v) = map fst d"
  by (auto simp: dict_set_def has_key_def update_keys map_of_eq_None_iff)

lemma dict_set_map_of: "map_of (dict_set d k v) k' = (if k' = k then Some v else map_of d k')"
  by (simp add: dict_set_def update_conv')

lemma has_key_dict_set: "has_key (dict_set d k v) k' = (k' = k \<or> has_key d k')"
  by (simp add: has_key_def dict_set_map_of)

lemma has_key_iff: "has_key d k = (k \<in> set (map fst d))"
  by (simp add: has_key_def map_of_eq_None_iff)

lemma resolve_by_regex_ok:
  assumes "\<forall>k \<in> set ks. re_match rt k s \<noteq> None" and "\<forall>k \<in> set ks. has_key reqs k"
  shows "snd (resolve_by_regex rt (PStr s) p ks reqs) = None
       \<and> map fst (fst (resolve_by_regex rt (PStr s) p ks reqs)) = map fst reqs
       \<and> map_of (fst (resolve_by_regex rt (PStr s) p ks reqs)) k =
           (if k \<in> set ks \<and> re_match rt k s = Some True then Some p else map_of reqs k)"
  using assms
proof (induction ks arbitrary: reqs)
  case Nil
  then show ?case by simp
next
  case (Cons a ks)
  from Cons.prems obtain m where m: "re_match rt a s = Some m" by auto
  let ?reqs = "if m then dict_set reqs a p else reqs"
  have keys: "\<forall>k \<in> set ks. has_key ?reqs k"
    using Cons.prems by (simp add: has_key_dict_set)
  have ha: "has_key reqs a" using Cons.prems by simp
  have step: "resolve_by_regex rt (PStr s) p (a # ks) reqs = resolve_by_regex rt (PStr s) p ks ?reqs"
    by (simp add: match_one_def m)
  from Cons.IH[of ?reqs] keys Cons.prems
  have ih: "snd (resolve_by_regex rt (PStr s) p ks ?reqs) = None
       \<and> map fst (fst (resolve_by_regex rt (PStr s) p ks ?reqs)) = map fst ?reqs
       \<and> map_of (fst (resolve_by_regex rt (PStr s) p ks ?reqs)) k =
           (if k \<in> set ks \<and> re_match rt k s = Some True then Some p else map_of ?reqs k)"
    by simp
  show ?case
    unfolding step using ih ha m
    by (cases m) (auto simp: dict_set_keys dict_set_map_of)
qed


lemma resolve_transactions_unfold:
  assumes "text_or_none response ''transId''" and "text_or_none response ''resource''"
  shows "resolve_transactions rt response reqs =
     (let reqs1 = (case str_field response ''transId'' of
                     None \<Rightarrow> reqs
                   | Some t \<Rightarrow> if has_key reqs t then dict_set reqs t (PDict response) else reqs)
      in case str_field response ''resource'' of
           None \<Rightarrow> (reqs1, None)
         | Some r \<Rightarrow>
             if has_key reqs1 r then (dict_set reqs1 r (PDict response), None)
             else resolve_by_regex rt (PStr (match_subject rt response r)) (PDict response)
                    (map fst reqs1) reqs1)"
proof -
  obtain tv where tv: "dict_get response ''transId'' PNone = tv" by simp
  obtain rv where rv: "dict_get response ''resource'' PNone = rv" by simp
  from assms(1) tv have t: "tv = PNone \<or> (\<exists>t. tv = PStr t)"
    by (auto simp: text_or_none_def split: pyval.splits)
  from assms(2) rv have r: "rv = PNone \<or> (\<exists>r. rv = PStr r)"
    by (auto simp: text_or_none_def split: pyval.splits)
  from t r show ?thesis
    unfolding resolve_transactions_def str_field_def match_subject_def tv rv Let_def
    by (auto simp: str_of_def)
qed


text \<open>
  Claim C1, as amended. For a payload whose transaction identifier and resource are each
  absent, \<open>None\<close> or a string, and registered keys that compile as patterns, matching
  raises nothing, registers and removes no key, and sets to the payload exactly these
  registered keys: the key equal to the payload's non-empty transaction identifier; and,
  whether or not that rule applied, the key equal to the payload's non-empty resource or,
  only when the resource is no registered key, every key that matches as a pattern the
  \<open>resource:id\<close> compound (the bare resource when the payload has no truthy \<open>from\<close>).
\<close>

theorem resolve_transactions_rules:
  assumes tid: "text_or_none response ''transId''"
    and res: "text_or_none response ''resource''"
    and pats: "\<forall>k \<in> set (map fst reqs). \<forall>r. str_field response ''resource'' = Some r \<longrightarrow>
                 re_match rt k (match_subject rt response r) \<noteq> None"
  shows "snd (resolve_transactions rt response reqs) = None
       \<and> map fst (fst (resolve_transactions rt response reqs)) = map fst reqs
       \<and> (\<forall>k. map_of (fst (resolve_transactions rt response reqs)) k =
            (if has_key reqs k \<and>
                (str_field response ''transId'' = Some k
                 \<or> str_field response ''resource'' = Some k
                 \<or> (\<exists>r. str_field response ''resource'' = Some r \<and> \<not> has_key reqs r
                        \<and> re_match rt k (match_subject rt response r) = Some True))
             then Some (PDict response) else map_of reqs k))"
proof -
  define reqs1 where "reqs1 = (case str_field response ''transId'' of
                     None \<Rightarrow> reqs
                   | Some t \<Rightarrow> if has_key reqs t then dict_set reqs t (PDict response) else reqs)"
  have k1: "map fst reqs1 = map fst reqs"
    by (auto simp: reqs1_def dict_set_keys split: option.splits)
  have m1: "map_of reqs1 k = (if has_key reqs k \<and> str_field response ''transId'' = Some k
                              then Some (PDict response) else map_of reqs k)" for k
    by (auto simp: reqs1_def dict_set_map_of split: option.splits)
  have h1: "has_key reqs1 k = has_key reqs k" for k
    by (simp add: has_key_iff k1)
  note unf = resolve_transactions_unfold[OF tid res, of rt reqs, folded reqs1_def, unfolded Let_def]
  show ?thesis
  proof (cases "str_field response ''resource''")
    case None
    then show ?thesis unfolding unf by (simp add: k1 m1)
  next
    case (Some r)
    show ?thesis
    proof (cases "has_key reqs r")
      case True
      then show ?thesis unfolding unf Some
        by (auto simp: h1 k1 m1 dict_set_keys dict_set_map_of)
    next
      case False
      have c: "\<forall>k \<in> set (map fst reqs1). re_match rt k (match_subject rt response r) \<noteq> None"
        using pats Some by (simp add: k1)
      have hk: "\<forall>k \<in> set (map fst reqs1). has_key reqs1 k"
        by (simp add: has_key_iff)
      let ?R = "resolve_by_regex rt (PStr (match_subject rt response r)) (PDict response)
                  (map fst reqs1) reqs1"
      have inks: "(k \<in> set (map fst reqs1)) = has_key reqs k" for k
        by (simp add: has_key_iff k1)
      have rx: "snd ?R = None \<and> map fst (fst ?R) = map fst reqs
          \<and> map_of (fst ?R) k =
             (if has_key reqs k \<and> re_match rt k (match_subject rt response r) = Some True
              then Some (PDict response) else map_of reqs1 k)" for k
        using resolve_by_regex_ok[OF c hk, of "PDict response" k]
        by (simp only: k1 has_key_iff)
      have "resolve_transactions rt response reqs = ?R"
        unfolding unf Some using False by (simp add: h1)
      with rx False show ?thesis
        by (auto simp: m1 Some)
    qed
  qed
qed


theorem resolve_transactions_rules_witness:
  "snd (resolve_transactions literal_rt
          [(''transId'', PStr ''T1''), (''resource'', PStr ''cameras/ABC'')]
          [(''T1'', PNone), (''cameras'', PNone), (''modes'', PNone)]) = None
   \<and> map_of (fst (resolve_transactions literal_rt
          [(''transId'', PStr ''T1''), (''resource'', PStr ''cameras/ABC'')]
          [(''T1'', PNone), (''cameras'', PNone), (''modes'', PNone)])) ''modes'' = Some PNone
   \<and> map_of (fst (resolve_transactions literal_rt
          [(''transId'', PStr ''T1''), (''resource'', PStr ''cameras/ABC'')]
          [(''T1'', PNone), (''cameras'', PNone), (''modes'', PNone)])) ''cameras''
       = Some (PDict [(''transId'', PStr ''T1''), (''resource'', PStr ''cameras/ABC'')])"
  using resolve_transactions_rules [of
      "[(''transId'', PStr ''T1''), (''resource'', PStr ''cameras/ABC'')]"
      "[(''T1'', PNone), (''cameras'', PNone), (''modes'', PNone)]" literal_rt]
  by (simp add: text_or_none_def dict_get_def literal_rt_def str_field_def has_key_def
      match_subject_def)

text \<open>
  The claim as stated fails: a payload whose transaction identifier and resource are
  both registered resolves two keys, and so does a payload whose \<open>resource:id\<close>
  compound is matched by two registered patterns.
\<close>

theorem resolve_transactions_counterexample:
  "requests (fst (event_handle_response literal_rt []
       ((init_backend :: nat backend)\<lparr>requests := [(''T1'', PNone), (''modes'', PNone)]\<rparr>)
       [(''transId'', PStr ''T1''), (''resource'', PStr ''modes'')]))
     = [(''T1'', PDict [(''transId'', PStr ''T1''), (''resource'', PStr ''modes'')]),
        (''modes'', PDict [(''transId'', PStr ''T1''), (''resource'', PStr ''modes'')])]
   \<and> fst (resolve_transactions literal_rt
       [(''resource'', PStr ''cameras''), (''from'', PStr ''ABC'')]
       [(''cam'', PNone), (''camer'', PNone)])
     = [(''cam'', PDict [(''resource'', PStr ''cameras''), (''from'', PStr ''ABC'')]),
        (''camer'', PDict [(''resource'', PStr ''cameras''), (''from'', PStr ''ABC'')])]"
  by (simp add: event_handle_response_def event_dispatcher_def event_classify_def
      log_error_field_def fallback_triples_def resolve_transactions_def init_backend_def
      dict_get_def has_key_def dict_set_def match_one_def literal_rt_def str_of_def Let_def)

section \<open>Properties of the transaction wait\<close>

lemma pop_request_removes: "\<not> has_key (snd (pop_request tid reqs)) tid"
  by (auto simp: pop_request_def has_key_def delete_conv' split: option.splits)

lemma pop_request_unresolved:
  "map_of reqs tid = None \<or> map_of reqs tid = Some PNone \<Longrightarrow> fst (pop_request tid reqs) = PNone"
  by (auto simp: pop_request_def)

lemma wait_loop_no_leak:
  "wait_loop tid mend mnow reqs env = Some (response, reqs') \<Longrightarrow> \<not> has_key reqs' tid"
proof (induction env arbitrary: mnow reqs)
  case Nil
  then show ?case using pop_request_removes[of tid reqs]
    by (auto split: if_splits)
next
  case (Cons obs env)
  obtain t m where obs: "obs = (t, m)" by (cases obs)
  from Cons show ?case unfolding obs using pop_request_removes[of tid reqs]
    by (auto split: if_splits)
qed

lemma wait_loop_absent:
  "wait_loop tid mend mnow reqs env = Some (response, reqs') \<Longrightarrow>
   never_resolved tid (reqs # map snd env) \<Longrightarrow> response = PNone"
proof (induction env arbitrary: mnow reqs)
  case Nil
  then show ?case using pop_request_unresolved[of reqs tid]
    by (auto simp: never_resolved_def split: if_splits)
next
  case (Cons obs env)
  obtain t m where obs: "obs = (t, m)" by (cases obs)
  from Cons show ?case unfolding obs using pop_request_unresolved[of reqs tid]
    by (auto simp: never_resolved_def split: if_splits)
qed

lemma wait_loop_returns:
  "deadline_reached mend mnow env \<Longrightarrow> wait_loop tid mend mnow reqs env \<noteq> None"
proof (induction env arbitrary: mnow reqs)
  case Nil
  then show ?case by (auto simp: deadline_reached_def)
next
  case (Cons obs env)
  obtain t m where obs: "obs = (t, m)" by (cases obs)
  from Cons.prems have "mend \<le> mnow \<or> deadline_reached mend t env"
    by (auto simp: deadline_reached_def obs)
  then show ?case unfolding obs using Cons.IH[of t m] by auto
qed


text \<open>
  Claim C7. Whenever \<open>_wait_for_transaction\<close> returns, whatever the other threads did
  to the map while it waited (resolved the key, left it alone, discarded the map), the
  key is not in the pending-transaction map; when no observation of the map shows the
  key resolved, the result is absent (\<open>None\<close>); and it does return once the clock
  has reached the deadline.
\<close>

theorem wait_for_transaction_no_leak:
  "(\<forall>response b'.
       wait_for_transaction request_timeout tid timeout now env b = Some (response, b') \<longrightarrow>
         \<not> has_key (requests b') tid
         \<and> (never_resolved tid (requests b # map snd env) \<longrightarrow> response = PNone))
   \<and> (deadline_reached (now + (case timeout of None \<Rightarrow> request_timeout | Some t \<Rightarrow> t)) now env
        \<longrightarrow> wait_for_transaction request_timeout tid timeout now env b \<noteq> None)"
proof (intro conjI allI impI)
  fix response b'
  assume r: "wait_for_transaction request_timeout tid timeout now env b = Some (response, b')"
  then obtain reqs' where
    w: "wait_loop tid (now + (case timeout of None \<Rightarrow> request_timeout | Some t \<Rightarrow> t)) now
          (requests b) env = Some (response, reqs')"
    and b': "b' = b\<lparr>requests := reqs'\<rparr>"
    by (auto simp: wait_for_transaction_def split: option.splits)
  from wait_loop_no_leak[OF w] b' show "\<not> has_key (requests b') tid" by simp
  assume "never_resolved tid (requests b # map snd env)"
  with wait_loop_absent[OF w] show "response = PNone" by simp
next
  assume "deadline_reached (now + (case timeout of None \<Rightarrow> request_timeout | Some t \<Rightarrow> t)) now env"
  from wait_loop_returns[OF this, of tid "requests b"]
  show "wait_for_transaction request_timeout tid timeout now env b \<noteq> None"
    by (auto simp: wait_for_transaction_def split: option.splits)
qed

theorem wait_for_transaction_no_leak_witness:
  "wait_for_transaction 10 ''T1'' (Some 5) 0
       [(2, [(''T1'', PNone)]), (5, [(''T1'', PNone)])]
       ((init_backend :: nat backend)\<lparr>requests := [(''T1'', PNone)]\<rparr>)
     = Some (PNone, init_backend\<lparr>requests := []\<rparr>)
   \<and> never_resolved ''T1'' [[(''T1'', PNone)], [(''T1'', PNone)], [(''T1'', PNone)]]
   \<and> deadline_reached 5 0 [(2, [(''T1'', PNone)]), (5, [(''T1'', PNone)])]"
  using wait_for_transaction_no_leak [of 10 "''T1''" "Some 5" 0
      "[(2, [(''T1'', PNone)]), (5, [(''T1'', PNone)])]"
      "(init_backend :: nat backend)\<lparr>requests := [(''T1'', PNone)]\<rparr>"]
  by (simp add: wait_for_transaction_def pop_request_def init_backend_def never_resolved_def
      deadline_reached_def)

section \<open>Properties of the event transport supervisor\<close>

lemma stream_up_loop_bound:
  "count \<le> 30 \<Longrightarrow>
     fst (stream_up_loop env count b) \<le> 30
     \<and> (event_connected (snd (stream_up_loop env count b)) \<or> fst (stream_up_loop env count b) = 30)"
proof (induction env count b rule: stream_up_loop.induct)
  case (1 env count b)
  show ?case
  proof (cases "\<not> event_connected b \<and> count < 30")
    case True
    with "1.IH" have "fst (stream_up_loop env (Suc count) (env count b)) \<le> 30
     \<and> (event_connected (snd (stream_up_loop env (Suc count) (env count b)))
        \<or> fst (stream_up_loop env (Suc count) (env count b)) = 30)" by simp
    with True show ?thesis by (simp add: stream_up_loop.simps[of env count b])
  next
    case False
    with "1.prems" show ?thesis by (auto simp: stream_up_loop.simps[of env count b])
  qed
qed

lemma stream_up_loop_waits:
  "count + n \<le> 30 \<Longrightarrow> (\<forall>i<n. \<not> event_connected (waits_from env count i b)) \<Longrightarrow>
   event_connected (waits_from env count n b) \<or> count + n = 30 \<Longrightarrow>
   stream_up_loop env count b = (count + n, waits_from env count n b)"
proof (induction n arbitrary: count b)
  case 0
  then show ?case by (auto simp: stream_up_loop.simps[of env count b])
next
  case (Suc n)
  from Suc.prems(2) have nc: "\<not> event_connected b" by force
  from Suc.prems(1) have lt: "count < 30" by simp
  have step: "stream_up_loop env count b = stream_up_loop env (Suc count) (env count b)"
    using nc lt by (simp add: stream_up_loop.simps[of env count b])
  have "\<forall>i<n. \<not> event_connected (waits_from env (Suc count) i (env count b))"
  proof (intro allI impI)
    fix i assume "i < n"
    then have "Suc i < Suc n" by simp
    with Suc.prems(2) have "\<not> event_connected (waits_from env count (Suc i) b)" by blast
    then show "\<not> event_connected (waits_from env (Suc count) i (env count b))" by simp
  qed
  moreover have "Suc count + n \<le> 30" using Suc.prems(1) by simp
  moreover have "event_connected (waits_from env (Suc count) n (env count b)) \<or> Suc count + n = 30"
    using Suc.prems(3) by simp
  ultimately have "stream_up_loop env (Suc count) (env count b)
      = (Suc count + n, waits_from env (Suc count) n (env count b))"
    using Suc.IH[of "Suc count" "env count b"] by blast
  then show ?case by (simp add: step)
qed

text \<open>
  Claim C2, as amended. \<open>start_monitoring\<close> always returns \<open>True\<close>. It makes at most 30
  waits of one time unit, and when it returns the connection is marked ready or 30 waits
  have been made. The number of waits is exact: when the ready flag is unset in the
  state the loop starts from and after each of the waits 1 to \<open>n - 1\<close>, and it is set
  after wait \<open>n\<close> or \<open>n\<close> is 30, then exactly \<open>n\<close> waits are made and the state is the
  one found after wait \<open>n\<close>. So the call blocks until the connection is confirmed or 30
  waits have elapsed, whichever comes first, and the value returned does not tell which.
\<close>

theorem start_monitoring_returns_true:
  "fst (start_monitoring cfg env b) = True
   \<and> fst (snd (start_monitoring cfg env b)) \<le> 30
   \<and> (event_connected (snd (snd (snd (start_monitoring cfg env b))))
      \<or> fst (snd (start_monitoring cfg env b)) = 30)
   \<and> (\<forall>n. n \<le> 30
          \<and> (\<forall>i<n. \<not> event_connected (waits_from env 0 i
                 ((select_backend cfg b)\<lparr>event_client := False, event_connected := False\<rparr>)))
          \<and> (event_connected (waits_from env 0 n
                 ((select_backend cfg b)\<lparr>event_client := False, event_connected := False\<rparr>))
              \<or> n = 30)
        \<longrightarrow> fst (snd (start_monitoring cfg env b)) = n
            \<and> snd (snd (snd (start_monitoring cfg env b))) =
                waits_from env 0 n
                  ((select_backend cfg b)\<lparr>event_client := False, event_connected := False\<rparr>))"
proof (intro conjI allI impI)
  show "fst (start_monitoring cfg env b) = True"
    by (simp add: start_monitoring_def split: prod.splits)
next
  show "fst (snd (start_monitoring cfg env b)) \<le> 30"
    using stream_up_loop_bound[of 0 env
      "(select_backend cfg b)\<lparr>event_client := False, event_connected := False\<rparr>"]
    by (auto simp: start_monitoring_def split: prod.splits)
next
  show "event_connected (snd (snd (snd (start_monitoring cfg env b))))
      \<or> fst (snd (start_monitoring cfg env b)) = 30"
    using stream_up_loop_bound[of 0 env
      "(select_backend cfg b)\<lparr>event_client := False, event_connected := False\<rparr>"]
    by (auto simp: start_monitoring_def split: prod.splits)
next
  fix n
  let ?b = "(select_backend cfg b)\<lparr>event_client := False, event_connected := False\<rparr>"
  assume a: "n \<le> 30 \<and> (\<forall>i<n. \<not> event_connected (waits_from env 0 i ?b))
          \<and> (event_connected (waits_from env 0 n ?b) \<or> n = 30)"
  have "stream_up_loop env 0 ?b = (0 + n, waits_from env 0 n ?b)"
    by (rule stream_up_loop_waits) (use a in simp_all)
  then have s: "stream_up_loop env 0 ?b = (n, waits_from env 0 n ?b)" by simp
  show "fst (snd (start_monitoring cfg env b)) = n"
    by (simp add: start_monitoring_def s)
  show "snd (snd (snd (start_monitoring cfg env b))) = waits_from env 0 n ?b"
    by (simp add: start_monitoring_def s)
qed

text \<open>The theorem for a connection that is marked ready during the third wait: three
  waits are made.\<close>

theorem start_monitoring_returns_true_witness:
  "\<not> event_connected (waits_from (connects_at 2) 0 0
        ((select_backend sse_config (init_backend :: nat backend))
           \<lparr>event_client := False, event_connected := False\<rparr>))
   \<and> \<not> event_connected (waits_from (connects_at 2) 0 1
        ((select_backend sse_config (init_backend :: nat backend))
           \<lparr>event_client := False, event_connected := False\<rparr>))
   \<and> \<not> event_connected (waits_from (connects_at 2) 0 2
        ((select_backend sse_config (init_backend :: nat backend))
           \<lparr>event_client := False, event_connected := False\<rparr>))
   \<and> event_connected (waits_from (connects_at 2) 0 3
        ((select_backend sse_config (init_backend :: nat backend))
           \<lparr>event_client := False, event_connected := False\<rparr>))
   \<and> fst (start_monitoring sse_config (connects_at 2) (init_backend :: nat backend)) = True
   \<and> fst (snd (start_monitoring sse_config (connects_at 2) (init_backend :: nat backend))) = 3"
proof -
  let ?b = "(select_backend sse_config (init_backend :: nat backend))
           \<lparr>event_client := False, event_connected := False\<rparr>"
  have w: "waits_from (connects_at 2) 0 0 ?b = ?b" "waits_from (connects_at 2) 0 1 ?b = ?b"
    "waits_from (connects_at 2) 0 2 ?b = ?b"
    "waits_from (connects_at 2) 0 3 ?b = ?b\<lparr>event_connected := True\<rparr>"
    by (simp_all add: connects_at_def numeral_2_eq_2 numeral_3_eq_3)
  have h1: "\<forall>i<3. \<not> event_connected (waits_from (connects_at 2) 0 i ?b)"
  proof (intro allI impI)
    fix i :: nat assume "i < 3"
    then have "i = 0 \<or> i = 1 \<or> i = 2" by arith
    then show "\<not> event_connected (waits_from (connects_at 2) 0 i ?b)"
      using w by auto
  qed
  have h2: "event_connected (waits_from (connects_at 2) 0 3 ?b)" by (simp add: w)
  from start_monitoring_returns_true [of sse_config "connects_at 2" "init_backend :: nat backend"]
  have t: "fst (start_monitoring sse_config (connects_at 2) (init_backend :: nat backend)) = True"
    and g: "\<And>n. n \<le> 30 \<and> (\<forall>i<n. \<not> event_connected (waits_from (connects_at 2) 0 i ?b))
          \<and> (event_connected (waits_from (connects_at 2) 0 n ?b) \<or> n = 30)
        \<Longrightarrow> fst (snd (start_monitoring sse_config (connects_at 2) (init_backend :: nat backend))) = n"
    by blast+
  have "fst (snd (start_monitoring sse_config (connects_at 2) (init_backend :: nat backend))) = 3"
    by (rule g) (use h1 h2 in simp)
  moreover have "\<not> event_connected (waits_from (connects_at 2) 0 0 ?b)"
    "\<not> event_connected (waits_from (connects_at 2) 0 1 ?b)"
    "\<not> event_connected (waits_from (connects_at 2) 0 2 ?b)"
    by (simp_all only: w) simp_all
  ultimately show ?thesis using h2 t by blast
qed

lemma never_loop: "count \<le> 30 \<Longrightarrow> \<not> event_connected b \<Longrightarrow>
   stream_up_loop never_connects count b = (30, b)"
proof (induction "30 - count" arbitrary: count)
  case 0
  then have "count = 30" by simp
  then show ?case by (simp add: stream_up_loop.simps[of never_connects 30 b])
next
  case (Suc n)
  then have lt: "count < 30" and n: "n = 30 - Suc count" by simp_all
  have nc: "never_connects count b = b" by (simp add: never_connects_def)
  from Suc.hyps(1)[OF n] lt Suc.prems(2)
  have "stream_up_loop never_connects (Suc count) b = (30, b)" by simp
  with lt Suc.prems(2) show ?case
    by (simp add: stream_up_loop.simps[of never_connects count b] nc)
qed

text \<open>
  The claim as stated fails when the connection never comes up: after 30 waits the
  connection is not ready and the value returned is \<open>True\<close>.
\<close>

theorem start_monitoring_counterexample:
  "fst (start_monitoring sse_config never_connects (init_backend :: nat backend)) = True
   \<and> fst (snd (start_monitoring sse_config never_connects (init_backend :: nat backend))) = 30
   \<and> event_connected (snd (snd (snd
        (start_monitoring sse_config never_connects (init_backend :: nat backend))))) = False"
  by (simp add: start_monitoring_def never_loop select_backend_def sse_config_def init_backend_def)

lemma event_cleanup_keeps_ready:
  "event_connected (event_cleanup b) = event_connected b"
  by (simp add: event_cleanup_def)

lemma event_main_after_exit:
  "event_main_run [w0, w1] (Transport, b) = (LoopHead, event_cleanup (transport_exit w0 b))
   \<and> requests (event_cleanup (transport_exit w0 b)) = []
   \<and> logged_in (event_cleanup (transport_exit w0 b)) = False
   \<and> event_client (event_cleanup (transport_exit w0 b)) = False
   \<and> client_connected (event_cleanup (transport_exit w0 b)) = Some False
   \<and> event_connected (event_cleanup (transport_exit w0 b)) = event_connected (transport_exit w0 b)
   \<and> event_main_run [w0, w1, w2] (Transport, b)
        = (if stop_thread (transport_exit w0 b) then Finished else Relogin,
           event_cleanup (transport_exit w0 b))"
  by (simp add: event_cleanup_def)

text \<open>
  Claim C4. The clean-up after the transport loop does not clear the flag that marks the
  connection ready. A client that is logged in and has one pending transaction runs the
  stream transport, which marks the connection ready on \<open>{"status": "connected"}\<close> and
  exits on \<open>{"action": "logout"}\<close>. After the clean-up the pending-transaction map is
  empty, the transport handle is dropped and the client is marked as not logged in, but
  \<open>event_connected\<close>, the flag \<open>start_monitoring\<close> waits for, is still set: the clean-up
  wrote \<open>client_connected\<close>, an attribute that nothing reads. The flag is still set
  when the supervisor has gone back to the re-login loop and made its login.
\<close>

theorem event_main_cleanup_failure:
  "event_main_run [stream_world, stream_world]
       (Transport, (init_backend :: nat backend)\<lparr>logged_in := True, requests := [(''T1'', PNone)]\<rparr>)
     = (LoopHead, init_backend\<lparr>client_connected := Some False, event_connected := True\<rparr>)
   \<and> event_connected (snd (event_main_run [stream_world, stream_world]
       (Transport, (init_backend :: nat backend)\<lparr>logged_in := True, requests := [(''T1'', PNone)]\<rparr>)))
     = True
   \<and> event_main_run [stream_world, stream_world, stream_world, stream_world]
       (Transport, (init_backend :: nat backend)\<lparr>logged_in := True, requests := [(''T1'', PNone)]\<rparr>)
     = (Relogin, init_backend\<lparr>client_connected := Some False, event_connected := True,
                   logged_in := True\<rparr>)"
  by (simp add: stream_world_def event_cleanup_def init_backend_def)

section \<open>Properties of the request executor\<close>

lemma request_tuple_object:
  assumes "verb = ''GET'' \<and> \<not> stream \<or> verb = ''PUT'' \<or> verb = ''POST''"
    and "read_body hdr js tx = Some body"
  shows "request_tuple rt verb stream False (Reply 200 hdr js tx) = normalize_body rt body"
  using assms by (auto simp: request_tuple_def)

text \<open>
  Claim C8, as amended. For a \<open>GET\<close> that is not streamed, a \<open>PUT\<close> or a \<open>POST\<close>.
  When the call is not raw, the status is 200 and the body read is a JSON object:
  if \<open>meta.code\<close> equals 200, the result is \<open>(200, data)\<close> when the body has \<open>data\<close> and
  the exception \<open>KeyError\<close> when it has not; if \<open>meta.code\<close> is another number \<open>c\<close> and
  \<open>meta\<close> has \<open>error\<close>, a warning is logged unless the error equals 9204, and the result
  is \<open>c\<close> with the \<open>meta\<close> message when \<open>meta\<close> has \<open>message\<close> and \<open>KeyError\<close> when it has
  not; if \<open>meta.code\<close> is not 200 and \<open>meta\<close> has no \<open>error\<close>, the result is \<open>KeyError\<close>;
  a body without \<open>meta\<close> whose \<open>success\<close> is true gives \<open>(200, data)\<close>, with an empty
  dictionary when \<open>data\<close> is absent, and one whose \<open>success\<close> is false gives the generic
  failure \<open>(500, None)\<close>. A transport exception gives the generic failure, and so does,
  whatever the status, a body that cannot be read (no \<open>Content-Type\<close> header, or JSON
  announced that does not decode). A status other than 200 with a body that can be read,
  of any content type, gives that status itself with an absent body.
\<close>

theorem request_tuple_normalization:
  assumes call: "verb = ''GET'' \<and> \<not> stream \<or> verb = ''PUT'' \<or> verb = ''POST''"
  shows
   "(read_body hdr js tx = Some (PDict body) \<longrightarrow>
       (map_of body ''meta'' = Some (PDict m) \<and> map_of m ''code'' = Some cv \<and> py_eq_int cv 200 \<longrightarrow>
          request_tuple rt verb stream False (Reply 200 hdr js tx)
            = ([], case map_of body ''data'' of
                     Some d \<Rightarrow> Inr (200, Body d)
                   | None \<Rightarrow> Inl KeyError))
     \<and> (map_of body ''meta'' = Some (PDict m) \<and> map_of m ''code'' = Some cv \<and> \<not> py_eq_int cv 200
          \<and> py_int rt cv = Inr c \<and> map_of m ''error'' = Some e \<longrightarrow>
          request_tuple rt verb stream False (Reply 200 hdr js tx)
            = (if py_eq_int e 9204 then [] else [''error in new response''],
               case map_of m ''message'' of
                 Some msg \<Rightarrow> Inr (c, Body msg)
               | None \<Rightarrow> Inl KeyError))
     \<and> (map_of body ''meta'' = Some (PDict m) \<and> map_of m ''code'' = Some cv \<and> \<not> py_eq_int cv 200
          \<and> map_of m ''error'' = None \<longrightarrow>
          request_tuple rt verb stream False (Reply 200 hdr js tx) = ([], Inl KeyError))
     \<and> (map_of body ''meta'' = None \<and> map_of body ''success'' = Some (PBool True) \<longrightarrow>
          request_tuple rt verb stream False (Reply 200 hdr js tx)
            = ([], Inr (200, Body (dict_get body ''data'' (PDict [])))))
     \<and> (map_of body ''meta'' = None \<and> map_of body ''success'' = Some (PBool False) \<longrightarrow>
          request_tuple rt verb stream False (Reply 200 hdr js tx)
            = ([''error in response''], Inr generic_failure)))
    \<and> request_tuple rt verb stream raw Raised = ([''request-error''], Inr generic_failure)
    \<and> (read_body hdr2 js2 tx2 = None \<longrightarrow>
          request_tuple rt verb stream raw (Reply status hdr2 js2 tx2)
            = ([''body-error''], Inr generic_failure))
    \<and> (read_body hdr2 js2 tx2 \<noteq> None \<and> status \<noteq> 200 \<longrightarrow>
          request_tuple rt verb stream raw (Reply status hdr2 js2 tx2)
            = ([], Inr (status, Body PNone)))"
proof -
  have a: "map_of body ''meta'' = Some (PDict m) \<Longrightarrow> map_of m ''code'' = Some cv \<Longrightarrow> py_eq_int cv 200
       \<Longrightarrow> normalize_body rt (PDict body)
            = ([], case map_of body ''data'' of
                     Some d \<Rightarrow> Inr (200, Body d)
                   | None \<Rightarrow> Inl KeyError)"
    by (simp add: normalize_body_def normalize_meta_def has_key_def split: option.splits)
  have b: "map_of body ''meta'' = Some (PDict m) \<Longrightarrow> map_of m ''code'' = Some cv \<Longrightarrow> \<not> py_eq_int cv 200
       \<Longrightarrow> py_int rt cv = Inr c \<Longrightarrow> map_of m ''error'' = Some e \<Longrightarrow>
     normalize_body rt (PDict body)
       = (if py_eq_int e 9204 then [] else [''error in new response''],
               case map_of m ''message'' of
                 Some msg \<Rightarrow> Inr (c, Body msg)
               | None \<Rightarrow> Inl KeyError)"
    by (simp add: normalize_body_def normalize_meta_def has_key_def split: option.splits)
  have b': "map_of body ''meta'' = Some (PDict m) \<Longrightarrow> map_of m ''code'' = Some cv \<Longrightarrow> \<not> py_eq_int cv 200
       \<Longrightarrow> map_of m ''error'' = None \<Longrightarrow>
     normalize_body rt (PDict body) = ([], Inl KeyError)"
    by (simp add: normalize_body_def normalize_meta_def has_key_def)
  have c: "map_of body ''meta'' = None \<Longrightarrow> map_of body ''success'' = Some (PBool True) \<Longrightarrow>
     normalize_body rt (PDict body) = ([], Inr (200, Body (dict_get body ''data'' (PDict []))))"
    by (auto simp: normalize_body_def normalize_success_def has_key_def dict_get_def
        split: option.splits)
  have d: "map_of body ''meta'' = None \<Longrightarrow> map_of body ''success'' = Some (PBool False) \<Longrightarrow>
     normalize_body rt (PDict body) = ([''error in response''], Inr generic_failure)"
    by (simp add: normalize_body_def normalize_success_def has_key_def)
  have e: "request_tuple rt verb stream raw Raised = ([''request-error''], Inr generic_failure)"
    using call by (auto simp: request_tuple_def)
  have f: "read_body hdr2 js2 tx2 = None \<Longrightarrow>
     request_tuple rt verb stream raw (Reply status hdr2 js2 tx2)
       = ([''body-error''], Inr generic_failure)"
    using call by (auto simp: request_tuple_def)
  have h: "read_body hdr2 js2 tx2 \<noteq> None \<Longrightarrow> status \<noteq> 200 \<Longrightarrow>
     request_tuple rt verb stream raw (Reply status hdr2 js2 tx2)
       = ([], Inr (status, Body PNone))"
    using call by (auto simp: request_tuple_def)
  have nb: "read_body hdr js tx = Some (PDict body) \<Longrightarrow>
     request_tuple rt verb stream False (Reply 200 hdr js tx) = normalize_body rt (PDict body)"
    by (rule request_tuple_object[OF call])
  show ?thesis
    using a b b' c d e f h nb by presburger
qed

text \<open>The theorem at an envelope with the code 400 and the error 9204, and at a reply
  with the status 503 and an HTML body.\<close>

theorem request_tuple_normalization_witness:
  "read_body (Some ''application/json'')
      (Some (PDict [(''meta'', PDict [(''code'', PInt 400), (''error'', PInt 9204),
                                         (''message'', PStr ''untrusted'')])])) []
     = Some (PDict [(''meta'', PDict [(''code'', PInt 400), (''error'', PInt 9204),
                                         (''message'', PStr ''untrusted'')])])
   \<and> request_tuple literal_rt ''POST'' False False
     (Reply 200 (Some ''application/json'')
        (Some (PDict [(''meta'', PDict [(''code'', PInt 400), (''error'', PInt 9204),
                                         (''message'', PStr ''untrusted'')])])) [])
     = ([], Inr (400, Body (PStr ''untrusted'')))
   \<and> request_tuple literal_rt ''POST'' False False Raised
     = ([''request-error''], Inr generic_failure)
   \<and> read_body (Some ''text/html'') None ''busy'' \<noteq> None
   \<and> request_tuple literal_rt ''POST'' False False (Reply 503 (Some ''text/html'') None ''busy'')
     = ([], Inr (503, Body PNone))"
proof -
  have rb: "read_body (Some ''application/json'')
      (Some (PDict [(''meta'', PDict [(''code'', PInt 400), (''error'', PInt 9204),
                                         (''message'', PStr ''untrusted'')])])) []
     = Some (PDict [(''meta'', PDict [(''code'', PInt 400), (''error'', PInt 9204),
                                         (''message'', PStr ''untrusted'')])])"
    by (simp add: read_body_def)
  have rb2: "read_body (Some ''text/html'') None ''busy'' \<noteq> None"
    by (simp add: read_body_def)
  note t = request_tuple_normalization [where verb = "''POST''" and stream = False and raw = False
      and rt = literal_rt and hdr = "Some ''application/json''"
      and js = "Some (PDict [(''meta'', PDict [(''code'', PInt 400), (''error'', PInt 9204),
                                         (''message'', PStr ''untrusted'')])])"
      and tx = "[]"
      and body = "[(''meta'', PDict [(''code'', PInt 400), (''error'', PInt 9204),
                                         (''message'', PStr ''untrusted'')])]"
      and m = "[(''code'', PInt 400), (''error'', PInt 9204), (''message'', PStr ''untrusted'')]"
      and cv = "PInt 400" and c = 400 and e = "PInt 9204"
      and ?hdr2.0 = "Some ''text/html''" and ?js2.0 = None and ?tx2.0 = "''busy''" and status = 503]
  show ?thesis using t rb rb2 by simp
qed

text \<open>
  The claim as stated fails for a status other than 200: the status returned is the
  HTTP status, 404 here, not the generic failure status 500. It also fails for an
  envelope whose \<open>meta\<close> has a code other than 200 and a message but no \<open>error\<close>: the
  call raises \<open>KeyError\<close> instead of returning the code and the message.
\<close>

theorem request_tuple_normalization_counterexample:
  "request_tuple literal_rt ''GET'' False False
     (Reply 404 (Some ''application/json'') (Some (PDict [])) [])
     = ([], Inr (404, Body PNone))
   \<and> (404, Body PNone) \<noteq> generic_failure
   \<and> request_tuple literal_rt ''POST'' False False
     (Reply 200 (Some ''application/json'')
        (Some (PDict [(''meta'', PDict [(''code'', PInt 401),
                                         (''message'', PStr ''unauthorized'')])])) [])
     = ([], Inl KeyError)"
  by (simp add: request_tuple_def read_body_def generic_failure_def
      normalize_body_def normalize_meta_def has_key_def)

section \<open>Properties of the credential submission\<close>

lemma credential_loop_bound:
  "attempt \<le> 3 \<Longrightarrow> credential_loop rt endpoint attempt sleeps code body = Inr (a, s, c, b) \<Longrightarrow>
     a \<le> 3 \<and> attempt \<le> a \<and> s + attempt \<le> sleeps + a"
proof (induction rt endpoint attempt sleeps code body rule: credential_loop.induct)
  case (1 rt endpoint attempt sleeps code body)
  show ?case
  proof (cases "attempt < 3")
    case False
    with "1.prems"(2) have "Inr (attempt, sleeps, code, body) = Inr (a, s, c, b)"
      by (subst (asm) credential_loop.simps) simp
    with "1.prems"(1) show ?thesis by simp
  next
    case True
    show ?thesis
    proof (cases "snd (auth_post rt (endpoint (Suc attempt)))")
      case (Inl e)
      with True "1.prems" show ?thesis
        by (simp add: credential_loop.simps[of rt endpoint attempt sleeps code body])
    next
      case (Inr r)
      obtain c' b' where r: "r = (c', b')" by (cases r)
      show ?thesis
      proof (cases "c' = 200 \<or> c' = 401")
        case True
        with \<open>attempt < 3\<close> Inr r "1.prems" show ?thesis
          by (auto simp: credential_loop.simps[of rt endpoint attempt sleeps code body])
      next
        case False
        with \<open>attempt < 3\<close> Inr r "1.prems"
        have rec: "credential_loop rt endpoint (Suc attempt) (Suc sleeps) c' b' = Inr (a, s, c, b)"
          by (simp add: credential_loop.simps[of rt endpoint attempt sleeps code body])
        from \<open>attempt < 3\<close> have "Suc attempt \<le> 3" by simp
        from "1.IH"[OF \<open>attempt < 3\<close> Inr r[symmetric] False this rec]
        show ?thesis by simp
      qed
    qed
  qed
qed

lemma credential_loop_stop:
  "attempt < 3 \<Longrightarrow> snd (auth_post rt (endpoint (Suc attempt))) = Inr (c, b) \<Longrightarrow> c = 200 \<or> c = 401
   \<Longrightarrow> credential_loop rt endpoint attempt sleeps code body = Inr (Suc attempt, sleeps, c, b)"
  by (subst credential_loop.simps) auto

lemma credential_loop_retry:
  "attempt < 3 \<Longrightarrow> snd (auth_post rt (endpoint (Suc attempt))) = Inr (c, b) \<Longrightarrow> c \<noteq> 200 \<Longrightarrow> c \<noteq> 401
   \<Longrightarrow> credential_loop rt endpoint attempt sleeps code body
       = credential_loop rt endpoint (Suc attempt) (Suc sleeps) c b"
  by (subst credential_loop.simps) simp

lemma credential_loop_raise:
  "attempt < 3 \<Longrightarrow> snd (auth_post rt (endpoint (Suc attempt))) = Inl e
   \<Longrightarrow> credential_loop rt endpoint attempt sleeps code body = Inl e"
  by (subst credential_loop.simps) simp

lemma credential_loop_end:
  "credential_loop rt endpoint 3 sleeps code body = Inr (3, sleeps, code, body)"
  by (subst credential_loop.simps) simp

lemma goes_onD:
  "goes_on rt endpoint n \<Longrightarrow> \<exists>c b. snd (auth_post rt (endpoint n)) = Inr (c, b) \<and> c \<noteq> 200 \<and> c \<noteq> 401"
  by (auto simp: goes_on_def split: sum.splits)

text \<open>After \<open>k\<close> attempts that make the loop go on, it is at attempt \<open>k\<close> with \<open>k\<close>
  sleeps, holding the code and body of attempt \<open>k\<close>.\<close>

lemma credential_loop_run:
  "attempt + k \<le> 3 \<Longrightarrow> (\<forall>i. attempt < i \<and> i \<le> attempt + k \<longrightarrow> goes_on rt endpoint i) \<Longrightarrow>
   \<exists>c b. (k = 0 \<and> c = code \<and> b = body
            \<or> 0 < k \<and> snd (auth_post rt (endpoint (attempt + k))) = Inr (c, b))
        \<and> credential_loop rt endpoint attempt sleeps code body
            = credential_loop rt endpoint (attempt + k) (sleeps + k) c b"
proof (induction k arbitrary: attempt sleeps code body)
  case 0
  then show ?case by simp
next
  case (Suc k)
  have lt: "attempt < 3" using Suc.prems(1) by simp
  have "goes_on rt endpoint (Suc attempt)" using Suc.prems(2) by simp
  then obtain c1 b1 where p: "snd (auth_post rt (endpoint (Suc attempt))) = Inr (c1, b1)"
      "c1 \<noteq> 200" "c1 \<noteq> 401"
    using goes_onD by blast
  have step: "credential_loop rt endpoint attempt sleeps code body
       = credential_loop rt endpoint (Suc attempt) (Suc sleeps) c1 b1"
    using lt p by (rule credential_loop_retry)
  have le: "Suc attempt + k \<le> 3" using Suc.prems(1) by simp
  have go: "\<forall>i. Suc attempt < i \<and> i \<le> Suc attempt + k \<longrightarrow> goes_on rt endpoint i"
    using Suc.prems(2) by simp
  from Suc.IH[OF le go, of c1 b1 "Suc sleeps"]
  obtain c b where r: "k = 0 \<and> c = c1 \<and> b = b1
            \<or> 0 < k \<and> snd (auth_post rt (endpoint (Suc attempt + k))) = Inr (c, b)"
      and q: "credential_loop rt endpoint (Suc attempt) (Suc sleeps) c1 b1
            = credential_loop rt endpoint (Suc attempt + k) (Suc sleeps + k) c b"
    by blast
  have "snd (auth_post rt (endpoint (attempt + Suc k))) = Inr (c, b)"
    using r p(1) by auto
  moreover have "credential_loop rt endpoint attempt sleeps code body
            = credential_loop rt endpoint (attempt + Suc k) (sleeps + Suc k) c b"
    using step q by simp
  ultimately show ?case by blast
qed

lemma auth_post_http_401:
  "read_body hdr js tx \<noteq> None \<Longrightarrow> auth_post rt (Reply 401 hdr js tx) = ([], Inr (401, Body PNone))"
  by (auto simp: auth_post_def request_tuple_def)

lemma auth_post_unreadable:
  "read_body hdr js tx = None \<Longrightarrow> auth_post rt (Reply st hdr js tx) = ([''body-error''], Inr (500, Body PNone))"
  by (auto simp: auth_post_def request_tuple_def generic_failure_def)

lemmas request_defs = auth_post_def request_tuple_def read_body_def normalize_body_def
  normalize_meta_def has_key_def

text \<open>
  Claim C3, as amended. The credential submission makes at most 3 attempts and at most
  one sleep per attempt. It stops at the first attempt \<open>n\<close> whose code, as the request executor returns it, is 200 or 401:
  then \<open>n\<close> attempts and \<open>n - 1\<close> sleeps of 3 time units were made, one after each
  earlier attempt. When none of the 3 attempts gives 200 or 401 there are 3 attempts and
  3 sleeps. An exception raised by an attempt ends the submission with that exception.
  What follows the loop is \<open>CAN_RETRY\<close> when the last body is absent, else \<open>FAILED\<close> when
  the last code is not 200, else the step goes on with the body. So: when the first two
  attempts give a code other than 200 and 401 and the third gives 200 with a body, the
  step goes on with that body after 3 attempts and 2 sleeps. When the first attempt is
  answered with the HTTP status 401 and a body that can be read, no further attempt is
  made and, the body of such a reply being dropped, the result is \<open>CAN_RETRY\<close>. When
  every attempt is answered with the HTTP status 401 and a body that cannot be read, the
  code is 500 each time: 3 attempts, 3 sleeps, \<open>CAN_RETRY\<close>. The result is \<open>FAILED\<close>,
  without a further attempt, when the code 401 comes with a body.
\<close>

theorem auth_submit_retry:
  "(\<forall>attempts sleeps out. auth_submit rt endpoint = Inr (attempts, sleeps, out) \<longrightarrow>
        attempts \<le> 3 \<and> sleeps \<le> attempts)
   \<and> (\<forall>n c b. 0 < n \<and> n \<le> 3 \<and> (\<forall>i. 0 < i \<and> i < n \<longrightarrow> goes_on rt endpoint i)
        \<and> snd (auth_post rt (endpoint n)) = Inr (c, b) \<and> (c = 200 \<or> c = 401) \<longrightarrow>
      auth_submit rt endpoint = Inr (n, n - 1, after_loop c b))
   \<and> (\<forall>c b. (\<forall>i. 0 < i \<and> i \<le> 3 \<longrightarrow> goes_on rt endpoint i)
        \<and> snd (auth_post rt (endpoint 3)) = Inr (c, b) \<longrightarrow>
      auth_submit rt endpoint = Inr (3, 3, after_loop c b))
   \<and> (\<forall>n e. 0 < n \<and> n \<le> 3 \<and> (\<forall>i. 0 < i \<and> i < n \<longrightarrow> goes_on rt endpoint i)
        \<and> snd (auth_post rt (endpoint n)) = Inl e \<longrightarrow>
      auth_submit rt endpoint = Inl e)
   \<and> (snd (auth_post rt (endpoint 1)) = Inr (c1, b1) \<and> c1 \<noteq> 200 \<and> c1 \<noteq> 401
       \<and> snd (auth_post rt (endpoint 2)) = Inr (c2, b2) \<and> c2 \<noteq> 200 \<and> c2 \<noteq> 401
       \<and> snd (auth_post rt (endpoint 3)) = Inr (200, Body d) \<and> d \<noteq> PNone \<longrightarrow>
      auth_submit rt endpoint = Inr (3, 2, Continue (Body d)))
   \<and> (endpoint 1 = Reply 401 hdr js tx \<and> read_body hdr js tx \<noteq> None \<longrightarrow>
      auth_submit rt endpoint = Inr (1, 0, Return CAN_RETRY))
   \<and> ((\<forall>i. 0 < i \<and> i \<le> 3 \<longrightarrow> endpoint i = Reply 401 hdr js tx) \<and> read_body hdr js tx = None \<longrightarrow>
      auth_submit rt endpoint = Inr (3, 3, Return CAN_RETRY))
   \<and> (snd (auth_post rt (endpoint 1)) = Inr (401, Body msg) \<and> msg \<noteq> PNone \<longrightarrow>
      auth_submit rt endpoint = Inr (1, 0, Return FAILED))"
proof -
  have A: "auth_submit rt endpoint = Inr (n, n - 1, after_loop c b)"
    if h: "0 < n \<and> n \<le> 3 \<and> (\<forall>i. 0 < i \<and> i < n \<longrightarrow> goes_on rt endpoint i)
        \<and> snd (auth_post rt (endpoint n)) = Inr (c, b) \<and> (c = 200 \<or> c = 401)" for n c b
  proof -
    obtain k where k: "n = Suc k" using h by (cases n) auto
    have "0 + k \<le> 3" using h k by simp
    moreover have "\<forall>i. 0 < i \<and> i \<le> 0 + k \<longrightarrow> goes_on rt endpoint i" using h k by simp
    ultimately obtain c' b' where
      "credential_loop rt endpoint 0 0 0 (Body PNone) = credential_loop rt endpoint (0 + k) (0 + k) c' b'"
      using credential_loop_run[of 0 k rt endpoint 0 "Body PNone" 0] by blast
    moreover have "credential_loop rt endpoint k k c' b' = Inr (Suc k, k, c, b)"
      by (rule credential_loop_stop) (use h k in auto)
    ultimately have "credential_loop rt endpoint 0 0 0 (Body PNone) = Inr (n, n - 1, c, b)"
      using k by simp
    then show ?thesis by (simp add: auth_submit_def)
  qed
  have B: "auth_submit rt endpoint = Inr (3, 3, after_loop c b)"
    if h: "(\<forall>i. 0 < i \<and> i \<le> 3 \<longrightarrow> goes_on rt endpoint i)
        \<and> snd (auth_post rt (endpoint 3)) = Inr (c, b)" for c b
  proof -
    have "0 + 3 \<le> (3::nat)" by simp
    moreover have "\<forall>i. 0 < i \<and> i \<le> 0 + 3 \<longrightarrow> goes_on rt endpoint i" using h by simp
    ultimately obtain c' b' where
      r: "snd (auth_post rt (endpoint (0 + 3))) = Inr (c', b')" and
      q: "credential_loop rt endpoint 0 0 0 (Body PNone) = credential_loop rt endpoint (0 + 3) (0 + 3) c' b'"
      using credential_loop_run[of 0 3 rt endpoint 0 "Body PNone" 0] by auto
    have "c' = c \<and> b' = b" using r h by simp
    then have "credential_loop rt endpoint 0 0 0 (Body PNone) = Inr (3, 3, c, b)"
      using q by (simp add: credential_loop_end)
    then show ?thesis by (simp add: auth_submit_def)
  qed
  have C: "auth_submit rt endpoint = Inl e"
    if h: "0 < n \<and> n \<le> 3 \<and> (\<forall>i. 0 < i \<and> i < n \<longrightarrow> goes_on rt endpoint i)
        \<and> snd (auth_post rt (endpoint n)) = Inl e" for n e
  proof -
    obtain k where k: "n = Suc k" using h by (cases n) auto
    have "0 + k \<le> 3" using h k by simp
    moreover have "\<forall>i. 0 < i \<and> i \<le> 0 + k \<longrightarrow> goes_on rt endpoint i" using h k by simp
    ultimately obtain c' b' where
      "credential_loop rt endpoint 0 0 0 (Body PNone) = credential_loop rt endpoint (0 + k) (0 + k) c' b'"
      using credential_loop_run[of 0 k rt endpoint 0 "Body PNone" 0] by blast
    moreover have "credential_loop rt endpoint k k c' b' = Inl e"
      by (rule credential_loop_raise) (use h k in auto)
    ultimately have "credential_loop rt endpoint 0 0 0 (Body PNone) = Inl e" by simp
    then show ?thesis by (simp add: auth_submit_def)
  qed
  have D: "auth_submit rt endpoint = Inr (3, 2, Continue (Body d))"
    if h: "snd (auth_post rt (endpoint 1)) = Inr (c1, b1) \<and> c1 \<noteq> 200 \<and> c1 \<noteq> 401
       \<and> snd (auth_post rt (endpoint 2)) = Inr (c2, b2) \<and> c2 \<noteq> 200 \<and> c2 \<noteq> 401
       \<and> snd (auth_post rt (endpoint 3)) = Inr (200, Body d) \<and> d \<noteq> PNone"
  proof -
    have g: "\<forall>i. 0 < i \<and> i < 3 \<longrightarrow> goes_on rt endpoint i"
    proof (intro allI impI)
      fix i :: nat assume "0 < i \<and> i < 3"
      then have "i = 1 \<or> i = 2" by arith
      then show "goes_on rt endpoint i" using h by (auto simp: goes_on_def)
    qed
    have "auth_submit rt endpoint = Inr (3, 3 - 1, after_loop 200 (Body d))"
      by (rule A) (use g h in simp)
    then show ?thesis using h by (simp add: after_loop_def)
  qed
  have E: "auth_submit rt endpoint = Inr (1, 0, Return CAN_RETRY)"
    if h: "endpoint 1 = Reply 401 hdr js tx \<and> read_body hdr js tx \<noteq> None"
  proof -
    have "snd (auth_post rt (endpoint 1)) = Inr (401, Body PNone)"
      using h by (simp add: auth_post_http_401)
    then have "auth_submit rt endpoint = Inr (1, 1 - 1, after_loop 401 (Body PNone))"
      by (intro A) simp
    then show ?thesis by (simp add: after_loop_def)
  qed
  have F: "auth_submit rt endpoint = Inr (3, 3, Return CAN_RETRY)"
    if h: "(\<forall>i. 0 < i \<and> i \<le> 3 \<longrightarrow> endpoint i = Reply 401 hdr js tx) \<and> read_body hdr js tx = None"
  proof -
    have p: "snd (auth_post rt (endpoint i)) = Inr (500, Body PNone)" if "0 < i \<and> i \<le> 3" for i
      using h that by (simp add: auth_post_unreadable)
    then have g: "\<forall>i. 0 < i \<and> i \<le> 3 \<longrightarrow> goes_on rt endpoint i"
      by (simp add: goes_on_def)
    have "auth_submit rt endpoint = Inr (3, 3, after_loop 500 (Body PNone))"
      by (rule B) (use g p[of 3] in simp)
    then show ?thesis by (simp add: after_loop_def)
  qed
  have G: "auth_submit rt endpoint = Inr (1, 0, Return FAILED)"
    if h: "snd (auth_post rt (endpoint 1)) = Inr (401, Body msg) \<and> msg \<noteq> PNone"
  proof -
    have "auth_submit rt endpoint = Inr (1, 1 - 1, after_loop 401 (Body msg))"
      by (intro A) (use h in simp)
    then show ?thesis using h by (simp add: after_loop_def)
  qed
  have Z: "attempts \<le> 3 \<and> sleeps \<le> attempts"
    if h: "auth_submit rt endpoint = Inr (attempts, sleeps, out)" for attempts sleeps out
  proof -
    obtain c b where "credential_loop rt endpoint 0 0 0 (Body PNone) = Inr (attempts, sleeps, c, b)"
      using h by (auto simp: auth_submit_def split: sum.splits)
    from credential_loop_bound[OF _ this] show ?thesis by simp
  qed
  show ?thesis using Z A B C D E F G by blast
qed

text \<open>The theorem at an endpoint that answers 503 twice and then accepts the
  credentials.\<close>

theorem auth_submit_retry_witness:
  "goes_on literal_rt flaky_endpoint 1 \<and> goes_on literal_rt flaky_endpoint 2
   \<and> snd (auth_post literal_rt (flaky_endpoint 3)) = Inr (200, Body (PDict [(''token'', PStr ''tok'')]))
   \<and> auth_submit literal_rt flaky_endpoint
     = Inr (3, 2, Continue (Body (PDict [(''token'', PStr ''tok'')])))"
proof -
  have p1: "snd (auth_post literal_rt (flaky_endpoint 1)) = Inr (503, Body PNone)"
    and p2: "snd (auth_post literal_rt (flaky_endpoint 2)) = Inr (503, Body PNone)"
    and p3: "snd (auth_post literal_rt (flaky_endpoint 3))
               = Inr (200, Body (PDict [(''token'', PStr ''tok'')]))"
    by (simp_all add: flaky_endpoint_def request_defs)
  have g: "goes_on literal_rt flaky_endpoint 1" "goes_on literal_rt flaky_endpoint 2"
    using p1 p2 by (simp_all add: goes_on_def)
  from auth_submit_retry [of literal_rt flaky_endpoint 503 "Body PNone" 503 "Body PNone"
      "PDict [(''token'', PStr ''tok'')]" None None "[]" PNone]
  have "snd (auth_post literal_rt (flaky_endpoint 1)) = Inr (503, Body PNone) \<and> (503::int) \<noteq> 200 \<and> (503::int) \<noteq> 401
       \<and> snd (auth_post literal_rt (flaky_endpoint 2)) = Inr (503, Body PNone) \<and> (503::int) \<noteq> 200 \<and> (503::int) \<noteq> 401
       \<and> snd (auth_post literal_rt (flaky_endpoint 3)) = Inr (200, Body (PDict [(''token'', PStr ''tok'')]))
       \<and> PDict [(''token'', PStr ''tok'')] \<noteq> PNone \<longrightarrow>
      auth_submit literal_rt flaky_endpoint = Inr (3, 2, Continue (Body (PDict [(''token'', PStr ''tok'')])))"
    by blast
  then have "auth_submit literal_rt flaky_endpoint
     = Inr (3, 2, Continue (Body (PDict [(''token'', PStr ''tok'')])))"
    using p1 p2 p3 by simp
  with g p3 show ?thesis by simp
qed

text \<open>
  The claim as stated fails for an endpoint that answers with the HTTP status 401: with
  a JSON body, one attempt is made and the result is \<open>CAN_RETRY\<close>, not \<open>FAILED\<close>;
  without a \<open>Content-Type\<close> header, 3 attempts and 3 sleeps are made.
\<close>

theorem auth_submit_retry_counterexample:
  "auth_submit literal_rt unauthorized_endpoint = Inr (1, 0, Return CAN_RETRY)
   \<and> Return CAN_RETRY \<noteq> Return FAILED
   \<and> auth_submit literal_rt headerless_endpoint = Inr (3, 3, Return CAN_RETRY)"
  by (simp add: auth_submit_def after_loop_def credential_loop.simps unauthorized_endpoint_def
      headerless_endpoint_def generic_failure_def request_defs)

section \<open>Properties of the session store\<close>

lemma assign_optional_session_info:
  assumes "\<And>v s. session_info (setter v s) = session_info s"
  shows "session_info (fst (assign_optional k setter si b)) = session_info b"
  using assms by (simp add: assign_optional_def split: sum.splits bool.splits)

lemma assign_required_session_info:
  assumes "\<forall>(k, setter) \<in> set fs. \<forall>v s. session_info (setter v s) = session_info s"
  shows "session_info (fst (assign_required fs si b)) = session_info b"
  using assms
proof (induction fs arbitrary: b)
  case Nil
  then show ?case by simp
next
  case (Cons f fs)
  obtain k setter where f: "f = (k, setter)" by (cases f)
  show ?case using Cons by (simp add: f split: sum.splits)
qed

lemma read_fields_session_info: "session_info (fst (read_fields si b)) = session_info b"
proof -
  let ?fs = "[(''user_id'', \<lambda>v s. s\<lparr>user_id := v\<rparr>),
              (''web_id'', \<lambda>v s. s\<lparr>web_id := v\<rparr>),
              (''sub_id'', \<lambda>v s. s\<lparr>sub_id := v\<rparr>),
              (''token'', \<lambda>v s. s\<lparr>token := v\<rparr>),
              (''expires_in'', \<lambda>v (s :: 'a backend). s\<lparr>expires_in := v\<rparr>)]"
  have r: "session_info (fst (assign_required ?fs si b)) = session_info b"
    by (rule assign_required_session_info) simp
  obtain b1 e1 where a1: "assign_required ?fs si b = (b1, e1)" by (cases "assign_required ?fs si b")
  have s1: "session_info b1 = session_info b" using r a1 by simp
  obtain b2 e2 where a2: "assign_optional ''browser_auth_code'' (\<lambda>v s. s\<lparr>browser_auth_code := v\<rparr>) si b1 = (b2, e2)"
    by (cases "assign_optional ''browser_auth_code'' (\<lambda>v s. s\<lparr>browser_auth_code := v\<rparr>) si b1")
  have "session_info (fst (assign_optional ''browser_auth_code'' (\<lambda>v s. s\<lparr>browser_auth_code := v\<rparr>) si b1)) = session_info b1"
    by (rule assign_optional_session_info) simp
  then have s2: "session_info b2 = session_info b" using a2 s1 by simp
  have s3: "session_info (fst (assign_optional ''device_id'' (\<lambda>v s. s\<lparr>user_device_id := v\<rparr>) si b2)) = session_info b2"
    by (rule assign_optional_session_info) simp
  show ?thesis
    unfolding read_fields_def a1 using a2 s1 s2 s3
    by (simp split: option.splits)
qed

lemma tagged_fresh: "tagged fresh_container"
  by (simp add: tagged_def fresh_container_def)

lemma load_session_tagged:
  assumes "cfg_save_session cfg" and "cfg_username cfg \<noteq> ''version''"
  shows "tagged (session_info (load_session cfg fl b0))"
proof (cases fl)
  case None
  then show ?thesis using assms by (simp add: load_session_def tagged_fresh)
next
  case (Some info)
  show ?thesis
  proof (cases info)
    case (PDict d)
    define b where "b = b0\<lparr>user_id := PNone, web_id := PNone, sub_id := PNone, token := PNone,
                 expires_in := PInt 0, browser_auth_code := PNone, user_device_id := PNone\<rparr>"
    define si where "si = (if dict_get d ''version'' (PInt 1) = PStr ''2'' then dict_get d (cfg_username cfg) PNone
                              else PDict d)"
    define b1 where "b1 = (if dict_get d ''version'' (PInt 1) = PStr ''2'' then b\<lparr>session_info := PDict d\<rparr>
                              else b\<lparr>session_info :=
                                       PDict (dict_set [(''version'', PStr ''2'')]
                                                (cfg_username cfg) (PDict d))\<rparr>)"
    have t1: "tagged (session_info b1)"
      using assms(2)
      by (auto simp: b1_def tagged_def dict_set_map_of dict_get_def split: option.splits)
    have ld: "load_session cfg fl b0 =
        (if si = PNone then b1
         else (case read_fields si b1 of
                 (b2, None) \<Rightarrow> b2
               | (b2, Some e) \<Rightarrow> b2\<lparr>session_info := fresh_container\<rparr>))"
      using assms(1) by (simp add: load_session_def Some PDict Let_def b_def si_def b1_def)
    obtain b2 e where rf: "read_fields si b1 = (b2, e)" by (cases "read_fields si b1")
    have "session_info b2 = session_info b1"
      using read_fields_session_info[of si b1] rf by simp
    then show ?thesis using t1 by (simp add: ld rf tagged_fresh split: option.splits)
  qed (use assms Some in \<open>simp_all add: load_session_def tagged_fresh\<close>)
qed

lemma read_fields_record:
  "read_fields (session_record b) b1 =
     (b1\<lparr>user_id := user_id b, web_id := web_id b, sub_id := sub_id b, token := token b,
         expires_in := expires_in b, browser_auth_code := browser_auth_code b,
         user_device_id := user_device_id b\<rparr>, None)"
  by (simp add: read_fields_def session_record_def assign_optional_def has_key_def)

lemma save_load_round_trip:
  assumes en: "cfg_save_session cfg" and nv: "cfg_username cfg \<noteq> ''version''"
      and tg: "tagged (session_info b)"
  shows "session_record (load_session cfg (fst (save_session cfg True file0 b)) b') = session_record b"
proof -
  obtain d where d: "session_info b = PDict d" and v: "map_of d ''version'' = Some (PStr ''2'')"
    using tg by (auto simp: tagged_def split: pyval.splits)
  let ?d = "dict_set d (cfg_username cfg) (session_record b)"
  have sv: "fst (save_session cfg True file0 b) = Some (PDict ?d)"
    using en by (simp add: save_session_def d)
  have ver: "dict_get ?d ''version'' (PInt 1) = PStr ''2''"
    using nv v by (simp add: dict_get_def dict_set_map_of)
  have si: "dict_get ?d (cfg_username cfg) PNone = session_record b"
    by (simp add: dict_get_def dict_set_map_of)
  have nn: "session_record b \<noteq> PNone" by (simp add: session_record_def)
  show ?thesis
    using en nn
    by (simp add: sv load_session_def Let_def ver si read_fields_record)
       (simp add: session_record_def)
qed


lemma legacy_migration:
  assumes en: "cfg_save_session cfg" and nv: "cfg_username cfg \<noteq> ''version''"
      and lg: "legacy_session d"
  shows "session_info (load_session cfg (Some (PDict d)) b0) =
           PDict [(''version'', PStr ''2''), (cfg_username cfg, PDict d)]
       \<and> session_record (load_session cfg (Some (PDict d)) b0) =
           PDict [(''user_id'', dict_get d ''user_id'' PNone), (''web_id'', dict_get d ''web_id'' PNone),
                  (''sub_id'', dict_get d ''sub_id'' PNone), (''token'', dict_get d ''token'' PNone),
                  (''expires_in'', dict_get d ''expires_in'' PNone),
                  (''browser_auth_code'', dict_get d ''browser_auth_code'' PNone),
                  (''device_id'', dict_get d ''device_id'' PNone)]"
proof -
  obtain v1 v2 v3 v4 v5 where
    k: "map_of d ''user_id'' = Some v1" "map_of d ''web_id'' = Some v2" "map_of d ''sub_id'' = Some v3"
       "map_of d ''token'' = Some v4" "map_of d ''expires_in'' = Some v5"
    using lg by (auto simp: legacy_session_def has_key_def)
  have ver: "dict_get d ''version'' (PInt 1) \<noteq> PStr ''2''"
    using lg by (simp add: legacy_session_def)
  have c: "dict_set [(''version'', PStr ''2'')] (cfg_username cfg) (PDict d) =
             [(''version'', PStr ''2''), (cfg_username cfg, PDict d)]"
    using nv by (auto simp: dict_set_def)
  have rf: "read_fields (PDict d) b1 =
     (b1\<lparr>user_id := v1, web_id := v2, sub_id := v3, token := v4, expires_in := v5,
         browser_auth_code := (case map_of d ''browser_auth_code'' of None \<Rightarrow> browser_auth_code b1 | Some v \<Rightarrow> v),
         user_device_id := (case map_of d ''device_id'' of None \<Rightarrow> user_device_id b1 | Some v \<Rightarrow> v)\<rparr>, None)"
    for b1 :: "'a backend"
    by (simp add: read_fields_def k assign_optional_def has_key_def split: option.splits)
  have ld: "load_session cfg (Some (PDict d)) b0 =
      fst (read_fields (PDict d)
        (b0\<lparr>user_id := PNone, web_id := PNone, sub_id := PNone, token := PNone,
            expires_in := PInt 0, browser_auth_code := PNone, user_device_id := PNone,
            session_info := PDict [(''version'', PStr ''2''), (cfg_username cfg, PDict d)]\<rparr>))"
    using en ver by (simp add: load_session_def Let_def c rf)
  show ?thesis
    unfolding ld rf
    by (simp add: session_record_def dict_get_def k split: option.splits)
qed

text \<open>
  Claim C5, as amended. For an account with session saving enabled whose name is not
  \<open>"version"\<close>: in a client whose container is the one \<open>_load_session\<close> left (from
  any session file), whatever the seven session fields hold, saving and then loading for
  the same account, in any client, gives back the seven fields; and loading a legacy
  session (a dictionary not tagged with version \<open>"2"\<close> that has the five fields always
  read) leaves the container \<open>{"version": "2", account: legacy}\<close> and sets every field
  from the legacy dictionary, the two optional ones to \<open>None\<close> when it lacks them.
\<close>

theorem session_round_trip:
  assumes "cfg_save_session cfg" and "cfg_username cfg \<noteq> ''version''"
  shows "(session_info b = session_info (load_session cfg file0 b0) \<longrightarrow>
            session_record (load_session cfg (fst (save_session cfg True file1 b)) b') =
              session_record b)
       \<and> (legacy_session d \<longrightarrow>
            session_info (load_session cfg (Some (PDict d)) b0) =
              PDict [(''version'', PStr ''2''), (cfg_username cfg, PDict d)]
            \<and> session_record (load_session cfg (Some (PDict d)) b0) =
                PDict [(''user_id'', dict_get d ''user_id'' PNone),
                       (''web_id'', dict_get d ''web_id'' PNone),
                       (''sub_id'', dict_get d ''sub_id'' PNone),
                       (''token'', dict_get d ''token'' PNone),
                       (''expires_in'', dict_get d ''expires_in'' PNone),
                       (''browser_auth_code'', dict_get d ''browser_auth_code'' PNone),
                       (''device_id'', dict_get d ''device_id'' PNone)])"
proof (rule conjI)
  show "session_info b = session_info (load_session cfg file0 b0) \<longrightarrow>
            session_record (load_session cfg (fst (save_session cfg True file1 b)) b') =
              session_record b"
  proof
    assume "session_info b = session_info (load_session cfg file0 b0)"
    then have "tagged (session_info b)"
      using load_session_tagged[OF assms, of file0 b0] by simp
    then show "session_record (load_session cfg (fst (save_session cfg True file1 b)) b') =
              session_record b"
      by (rule save_load_round_trip[OF assms])
  qed
next
  show "legacy_session d \<longrightarrow>
            session_info (load_session cfg (Some (PDict d)) b0) =
              PDict [(''version'', PStr ''2''), (cfg_username cfg, PDict d)]
            \<and> session_record (load_session cfg (Some (PDict d)) b0) =
                PDict [(''user_id'', dict_get d ''user_id'' PNone),
                       (''web_id'', dict_get d ''web_id'' PNone),
                       (''sub_id'', dict_get d ''sub_id'' PNone),
                       (''token'', dict_get d ''token'' PNone),
                       (''expires_in'', dict_get d ''expires_in'' PNone),
                       (''browser_auth_code'', dict_get d ''browser_auth_code'' PNone),
                       (''device_id'', dict_get d ''device_id'' PNone)]"
    using legacy_migration[OF assms] by blast
qed

text \<open>The theorem at the account \<open>alice@example.org\<close>, with no session file at first,
  and at a legacy file without the optional fields.\<close>

theorem session_round_trip_witness:
  "cfg_save_session alice_config \<and> cfg_username alice_config \<noteq> ''version''
   \<and> session_info (populate (load_session alice_config None (init_backend :: nat backend))) =
       session_info (load_session alice_config None (init_backend :: nat backend))
   \<and> session_record (load_session alice_config
        (fst (save_session alice_config True None
               (populate (load_session alice_config None (init_backend :: nat backend)))))
        (init_backend :: nat backend)) =
       session_record (populate (load_session alice_config None (init_backend :: nat backend)))
   \<and> user_id (load_session alice_config
        (fst (save_session alice_config True None
               (populate (load_session alice_config None (init_backend :: nat backend)))))
        (init_backend :: nat backend)) = PStr ''U1''
   \<and> legacy_session legacy_file
   \<and> session_info (load_session alice_config (Some (PDict legacy_file)) (init_backend :: nat backend)) =
       PDict [(''version'', PStr ''2''), (''alice@example.org'', PDict legacy_file)]
   \<and> session_record (load_session alice_config (Some (PDict legacy_file)) (init_backend :: nat backend)) =
       PDict [(''user_id'', PStr ''U0''), (''web_id'', PStr ''U0_web''),
              (''sub_id'', PStr ''subscriptions/U0_web''), (''token'', PStr ''old''),
              (''expires_in'', PInt 1600000000), (''browser_auth_code'', PNone),
              (''device_id'', PNone)]"
proof -
  have en: "cfg_save_session alice_config" by (simp add: alice_config_def)
  have nv: "cfg_username alice_config \<noteq> ''version''" by (simp add: alice_config_def)
  have u: "cfg_username alice_config = ''alice@example.org''" by (simp add: alice_config_def)
  have si: "session_info (populate (load_session alice_config None (init_backend :: nat backend))) =
       session_info (load_session alice_config None (init_backend :: nat backend))"
    by (simp add: populate_def)
  have lg: "legacy_session legacy_file"
    by (simp add: legacy_session_def legacy_file_def dict_get_def has_key_def)
  have up: "user_id (populate x) = PStr ''U1''" for x :: "nat backend"
    by (simp add: populate_def)
  have g: "dict_get legacy_file ''user_id'' PNone = PStr ''U0''"
          "dict_get legacy_file ''web_id'' PNone = PStr ''U0_web''"
          "dict_get legacy_file ''sub_id'' PNone = PStr ''subscriptions/U0_web''"
          "dict_get legacy_file ''token'' PNone = PStr ''old''"
          "dict_get legacy_file ''expires_in'' PNone = PInt 1600000000"
          "dict_get legacy_file ''browser_auth_code'' PNone = PNone"
          "dict_get legacy_file ''device_id'' PNone = PNone"
    by (simp_all add: legacy_file_def dict_get_def)
  note t = session_round_trip[OF en nv,
      of "populate (load_session alice_config None (init_backend :: nat backend))"
         None "init_backend :: nat backend" None "init_backend :: nat backend" legacy_file]
  have r: "session_record (load_session alice_config
        (fst (save_session alice_config True None
               (populate (load_session alice_config None (init_backend :: nat backend)))))
        (init_backend :: nat backend)) =
       session_record (populate (load_session alice_config None (init_backend :: nat backend)))"
    using t si by blast
  have r1: "user_id (load_session alice_config
        (fst (save_session alice_config True None
               (populate (load_session alice_config None (init_backend :: nat backend)))))
        (init_backend :: nat backend)) = PStr ''U1''"
    using r up by (simp add: session_record_def)
  have m: "session_info (load_session alice_config (Some (PDict legacy_file)) (init_backend :: nat backend)) =
       PDict [(''version'', PStr ''2''), (''alice@example.org'', PDict legacy_file)]
     \<and> session_record (load_session alice_config (Some (PDict legacy_file)) (init_backend :: nat backend)) =
       PDict [(''user_id'', PStr ''U0''), (''web_id'', PStr ''U0_web''),
              (''sub_id'', PStr ''subscriptions/U0_web''), (''token'', PStr ''old''),
              (''expires_in'', PInt 1600000000), (''browser_auth_code'', PNone),
              (''device_id'', PNone)]"
    using t lg by (simp only: u g)
  show ?thesis using en nv si r r1 lg m by blast
qed

text \<open>
  The account \<open>"version"\<close>: saving stores the session under the key that tags the
  container, the next load takes the file for a legacy session, the subscript
  \<open>session_info["user_id"]\<close> raises \<open>KeyError\<close> and the fields come back as \<open>None\<close>.
\<close>

theorem session_round_trip_counterexample:
  "cfg_save_session version_config
   \<and> session_info (load_session version_config None (init_backend :: nat backend)) =
       PDict [(''version'', PStr ''2'')]
   \<and> fst (save_session version_config True None
            (populate (load_session version_config None (init_backend :: nat backend)))) =
       Some (PDict [(''version'',
               session_record (populate (load_session version_config None (init_backend :: nat backend))))])
   \<and> user_id (populate (load_session version_config None (init_backend :: nat backend))) = PStr ''U1''
   \<and> user_id (load_session version_config
        (fst (save_session version_config True None
               (populate (load_session version_config None (init_backend :: nat backend)))))
        (init_backend :: nat backend)) = PNone
   \<and> session_record (load_session version_config
        (fst (save_session version_config True None
               (populate (load_session version_config None (init_backend :: nat backend)))))
        (init_backend :: nat backend)) \<noteq>
       session_record (populate (load_session version_config None (init_backend :: nat backend)))"
  by (simp add: version_config_def load_session_def save_session_def populate_def
        fresh_container_def init_backend_def session_record_def dict_set_def dict_get_def
        read_fields_def assign_optional_def has_key_def Let_def)

end
